theory Spec2Isabelle
  imports Complex_Main "HOL-Library.Word" "HOL-Library.Sublist"
begin

section \<open>Strings, integers and the formatting primitives the code relies on\<close>

text \<open>
  Go strings are byte sequences; \<open>string\<close> (a list of 8-bit characters) models them byte
  for byte, so \<open>length\<close> is Go's \<open>len\<close>. Go's \<open>int\<close> is taken to be 64 bits
  wide (the build targets linux/amd64): arithmetic on it is written on \<open>int\<close> with the
  wrap-around \<open>wrap64\<close> made explicit. Go's \<open>/\<close> and \<open>%\<close> truncate towards zero
  (\<open>quo\<close>, \<open>rem\<close>), unlike \<open>div\<close> and \<open>mod\<close> of HOL.
\<close>

definition byte :: "char \<Rightarrow> nat" where
  "byte c = of_char c"

definition isDigit :: "char \<Rightarrow> bool" where
  "isDigit c = (48 \<le> byte c \<and> byte c \<le> 57)"

definition wrap64 :: "int \<Rightarrow> int" where
  "wrap64 x = (x + 2 ^ 63) mod 2 ^ 64 - 2 ^ 63"

definition quo :: "int \<Rightarrow> int \<Rightarrow> int" where
  "quo a b = sgn a * sgn b * (\<bar>a\<bar> div \<bar>b\<bar>)"

definition rem :: "int \<Rightarrow> int \<Rightarrow> int" where
  "rem a b = a - b * quo a b"

text \<open>
  A \<open>float64\<close> read from a JSON payload is a finite binary fraction, hence a rational;
  NaN and the infinities cannot occur in JSON. The conversion \<open>int(f)\<close> truncates
  towards zero; where the truncated value does not fit an \<open>int\<close> the Go specification
  leaves the result to the implementation, and amd64 yields the least \<open>int\<close>.
\<close>

type_synonym float64 = rat

definition truncToZero :: "rat \<Rightarrow> int" where
  "truncToZero q = (if 0 \<le> q then \<lfloor>q\<rfloor> else \<lceil>q\<rceil>)"

definition int_of_float64 :: "float64 \<Rightarrow> int" where
  "int_of_float64 q =
     (if - (2 ^ 63) \<le> truncToZero q \<and> truncToZero q < 2 ^ 63 then truncToZero q else - (2 ^ 63))"

subsection \<open>\<open>fmt.Sscanf(s, "%d", &h)\<close>\<close>

text \<open>
  The scanner skips leading white space (an error at a newline), accepts one optional
  sign, then the longest run of decimal digits, which must not be empty and must denote a
  value that fits 64 bits; whatever follows the digits is ignored. On every error the
  target variable keeps its old value. \<open>spaceWidth\<close> is the number of bytes of a leading
  space character other than the newline, in UTF-8 (0 when there is none).
\<close>

definition spaceWidth :: "nat list \<Rightarrow> nat" where
  "spaceWidth bs =
    (case bs of
       [] \<Rightarrow> 0
     | b0 # r0 \<Rightarrow>
        if b0 = 0x09 \<or> b0 = 0x0B \<or> b0 = 0x0C \<or> b0 = 0x0D \<or> b0 = 0x20 then 1
        else (case r0 of
           [] \<Rightarrow> 0
         | b1 # r1 \<Rightarrow>
            if b0 = 0xC2 \<and> (b1 = 0x85 \<or> b1 = 0xA0) then 2
            else (case r1 of
               [] \<Rightarrow> 0
             | b2 # r2 \<Rightarrow>
                if (b0 = 0xE1 \<and> b1 = 0x9A \<and> b2 = 0x80)
                 \<or> (b0 = 0xE2 \<and> b1 = 0x80 \<and>
                      ((0x80 \<le> b2 \<and> b2 \<le> 0x8A) \<or> b2 = 0xA8 \<or> b2 = 0xA9 \<or> b2 = 0xAF))
                 \<or> (b0 = 0xE2 \<and> b1 = 0x81 \<and> b2 = 0x9F)
                 \<or> (b0 = 0xE3 \<and> b1 = 0x80 \<and> b2 = 0x80)
                then 3 else 0)))"

fun SkipSpace :: "string \<Rightarrow> string option" where
  "SkipSpace [] = Some []"
| "SkipSpace (c # cs) =
     (if byte c = 0x0A then None
      else if spaceWidth (map byte (c # cs)) = 0 then Some (c # cs)
      else SkipSpace (drop (spaceWidth (map byte (c # cs)) - 1) cs))"

definition decimal :: "string \<Rightarrow> int" where
  "decimal ds = foldl (\<lambda>a c. 10 * a + (int (byte c) - 48)) 0 ds"

definition scanInt :: "string \<Rightarrow> int option" where
  "scanInt s =
    (case SkipSpace s of
       None \<Rightarrow> None
     | Some r \<Rightarrow>
        (case r of
           [] \<Rightarrow> None
         | c # cs \<Rightarrow>
            let neg = (c = CHR ''-'');
                rest = (if c = CHR ''-'' \<or> c = CHR ''+'' then cs else c # cs);
                tok = takeWhile isDigit rest;
                v = (if neg then - decimal tok else decimal tok)
            in if tok = [] then None
               else if - (2 ^ 63) \<le> v \<and> v < 2 ^ 63 then Some v
               else None))"

definition Sscanf_d :: "string \<Rightarrow> int \<Rightarrow> int" where
  "Sscanf_d s old = (case scanInt s of None \<Rightarrow> old | Some v \<Rightarrow> v)"

subsection \<open>\<open>strconv.ParseInt(s, 10, 32)\<close> with the error dropped\<close>

text \<open>
  A syntax error yields 0. A range error yields the nearest 32-bit bound, and it is
  raised as soon as the digits read so far exceed 32 bits, before the rest is looked at.
\<close>

fun ParseUint32 :: "nat \<Rightarrow> string \<Rightarrow> nat option" where
  "ParseUint32 n [] = Some n"
| "ParseUint32 n (c # cs) =
     (if \<not> isDigit c then None
      else if n * 10 + (byte c - 48) > 2 ^ 32 - 1 then Some (2 ^ 32 - 1)
      else ParseUint32 (n * 10 + (byte c - 48)) cs)"

definition ParseInt32 :: "string \<Rightarrow> int" where
  "ParseInt32 s =
    (case s of
       [] \<Rightarrow> 0
     | c # cs \<Rightarrow>
        let neg = (c = CHR ''-'');
            rest = (if c = CHR ''-'' \<or> c = CHR ''+'' then cs else c # cs)
        in if rest = [] then 0
           else (case ParseUint32 0 rest of
              None \<Rightarrow> 0
            | Some un \<Rightarrow>
               if \<not> neg \<and> un \<ge> 2 ^ 31 then 2 ^ 31 - 1
               else if neg \<and> un > 2 ^ 31 then - (2 ^ 31)
               else if neg then - int un else int un))"

subsection \<open>\<open>fmt\<close> output\<close>

fun digits10 :: "nat \<Rightarrow> string" where
  "digits10 n =
     (if n < 10 then [char_of (48 + n)]
      else digits10 (n div 10) @ [char_of (48 + n mod 10)])"

declare digits10.simps [simp del]

text \<open>\<open>%02d\<close>: the sign counts towards the width of 2, the zeros follow it.\<close>

definition Sprintf_02d :: "int \<Rightarrow> string" where
  "Sprintf_02d n =
     (if n < 0
      then CHR ''-'' # replicate (1 - length (digits10 (nat (- n)))) CHR ''0'' @ digits10 (nat (- n))
      else replicate (2 - length (digits10 (nat n))) CHR ''0'' @ digits10 (nat n))"

text \<open>
  \<open>utf8.RuneCountInString\<close>: a well-formed multi-byte sequence counts once, every other
  byte counts on its own. \<open>runeSize\<close> is the number of bytes the first rune takes.
\<close>

definition contByte :: "nat \<Rightarrow> bool" where
  "contByte b = (0x80 \<le> b \<and> b \<le> 0xBF)"

definition runeSize :: "nat list \<Rightarrow> nat" where
  "runeSize bs =
    (case bs of
       [] \<Rightarrow> 0
     | c # r \<Rightarrow>
        let size = (if 0xC2 \<le> c \<and> c \<le> 0xDF then 2
                    else if 0xE0 \<le> c \<and> c \<le> 0xEF then 3
                    else if 0xF0 \<le> c \<and> c \<le> 0xF4 then 4
                    else 1);
            lo = (if c = 0xE0 then 0xA0 else if c = 0xF0 then 0x90 else 0x80);
            hi = (if c = 0xED then 0x9F else if c = 0xF4 then 0x8F else 0xBF)
        in if size = 1 then 1
           else if length bs < size then 1
           else if r ! 0 < lo \<or> hi < r ! 0 then 1
           else if size = 2 then 2
           else if \<not> contByte (r ! 1) then 1
           else if size = 3 then 3
           else if \<not> contByte (r ! 2) then 1
           else 4)"

fun runeCount :: "nat list \<Rightarrow> nat" where
  "runeCount [] = 0"
| "runeCount (b # bs) = Suc (runeCount (drop (runeSize (b # bs) - 1) bs))"

definition RuneCountInString :: "string \<Rightarrow> nat" where
  "RuneCountInString s = runeCount (map byte s)"

text \<open>
  \<open>%-*s\<close>: the string, then spaces up to the width counted in runes. A negative width
  counts by its absolute value; a width beyond a million in absolute value is refused by
  \<open>fmt\<close>, which prints a marker and no padding.
\<close>

definition Fprintf_left :: "int \<Rightarrow> string \<Rightarrow> string" where
  "Fprintf_left w s =
     (if w > 1000000 \<or> w < - 1000000 then ''%!(BADWIDTH)'' @ s
      else s @ replicate (nat \<bar>w\<bar> - RuneCountInString s) CHR '' '')"

definition HasPrefix :: "string \<Rightarrow> string \<Rightarrow> bool" where
  "HasPrefix s p = prefix p s"

section \<open>The arrival calculator\<close>

definition calculateArrivalTime :: "string \<Rightarrow> string \<Rightarrow> float64 \<Rightarrow> string" where
  "calculateArrivalTime hour minute offsetMinutes =
     (let h = Sscanf_d hour 0;
          m = Sscanf_d minute 0;
          totalMinutes = wrap64 (wrap64 (wrap64 (h * 60) + m) + int_of_float64 offsetMinutes);
          newH = rem (quo totalMinutes 60) 24;
          newM = rem totalMinutes 60
      in Sprintf_02d newH @ '':'' @ Sprintf_02d newM)"




section \<open>The timetable payload\<close>

text \<open>
  The payload types are generated from the service description; only the fields the
  renderer reads are kept. The one pointer the code tests against \<open>nil\<close>, the
  response's timetable, is an \<open>option\<close>. For the builder, the renderer and the
  resolver of the next sections a slice of struct pointers is a list of records: they
  describe payloads none of whose arrays holds a JSON null. The builder on an arbitrary
  decoded payload, where a null has left a nil pointer in a slice, is
  \<open>NewTimetableRenderer_decoded\<close> further down; the two agree on payloads without
  nulls.
\<close>

record MatchedStop =
  ms_ID :: string
  ms_Name :: string

record Interval =
  StopID :: string
  TimeToArrival :: float64

record StationInterval =
  si_ID :: string
  Intervals :: "Interval list"

record KnownJourney =
  Hour :: string
  Minute :: string
  IntervalID :: "32 word"

record Schedule =
  sch_Name :: string
  KnownJourneys :: "KnownJourney list"

record TimetableRoute =
  StationIntervals :: "StationInterval list"
  Schedules :: "Schedule list"

record TimetableEntity =
  DepartureStopID :: string
  Routes :: "TimetableRoute list"

record TimetableResponse =
  LineName :: string
  Timetable :: "TimetableEntity option"
  Stops :: "MatchedStop list"
  Stations :: "MatchedStop list"

section \<open>The model builder\<close>

record stopInfo =
  stop_id :: string
  stop_name :: string

record TimetableRenderer =
  timetable :: TimetableResponse
  targetRoute :: TimetableRoute
  schedule :: Schedule
  stationNames :: "string \<rightharpoonup> string"
  stops :: "stopInfo list"
  intervalData :: "32 word \<rightharpoonup> (string \<rightharpoonup> float64)"

datatype error = NoTimetableData | NoSchedulesFound

text \<open>The loop that finds the first route with schedules.\<close>

fun findTargetRoute :: "TimetableRoute list \<Rightarrow> TimetableRoute option" where
  "findTargetRoute [] = None"
| "findTargetRoute (r # rs) = (if length (Schedules r) > 0 then Some r else findTargetRoute rs)"

text \<open>The name lookup map: the stops first, then the stations not yet present.\<close>

fun addStopNames :: "MatchedStop list \<Rightarrow> (string \<rightharpoonup> string) \<Rightarrow> (string \<rightharpoonup> string)" where
  "addStopNames [] names = names"
| "addStopNames (s # ss) names = addStopNames ss (names(ms_ID s \<mapsto> ms_Name s))"

fun addStationNames :: "MatchedStop list \<Rightarrow> (string \<rightharpoonup> string) \<Rightarrow> (string \<rightharpoonup> string)" where
  "addStationNames [] names = names"
| "addStationNames (s # ss) names =
     (if names (ms_ID s) = None
      then addStationNames ss (names(ms_ID s \<mapsto> ms_Name s @ '' [S]''))
      else addStationNames ss names)"

text \<open>Reading a Go map at a missing key gives the zero value.\<close>

definition nameOf :: "(string \<rightharpoonup> string) \<Rightarrow> string \<Rightarrow> string" where
  "nameOf names k = (case names k of None \<Rightarrow> [] | Some n \<Rightarrow> n)"

definition intervalKey :: "string \<Rightarrow> 32 word" where
  "intervalKey s = word_of_int (ParseInt32 s)"

text \<open>
  The inner loop over one group's entries: it threads the group's offset table, the set
  of stops already added and the stop sequence.
\<close>

fun scanIntervals ::
  "(string \<rightharpoonup> string) \<Rightarrow> Interval list \<Rightarrow> (string \<rightharpoonup> float64) \<Rightarrow> string set \<Rightarrow> stopInfo list
    \<Rightarrow> (string \<rightharpoonup> float64) \<times> string set \<times> stopInfo list" where
  "scanIntervals names [] m addedStops stopSeq = (m, addedStops, stopSeq)"
| "scanIntervals names (intv # rest) m addedStops stopSeq =
     (if StopID intv \<notin> addedStops
      then scanIntervals names rest (m(StopID intv \<mapsto> TimeToArrival intv))
             (insert (StopID intv) addedStops)
             (stopSeq @ [\<lparr>stop_id = StopID intv, stop_name = nameOf names (StopID intv)\<rparr>])
      else scanIntervals names rest (m(StopID intv \<mapsto> TimeToArrival intv)) addedStops stopSeq)"

text \<open>The outer loop over the route's interval groups.\<close>

fun scanStationIntervals ::
  "(string \<rightharpoonup> string) \<Rightarrow> string \<Rightarrow> StationInterval list \<Rightarrow> string set \<Rightarrow> stopInfo list
    \<Rightarrow> (32 word \<rightharpoonup> (string \<rightharpoonup> float64))
    \<Rightarrow> stopInfo list \<times> (32 word \<rightharpoonup> (string \<rightharpoonup> float64))" where
  "scanStationIntervals names depID [] addedStops stopSeq idata = (stopSeq, idata)"
| "scanStationIntervals names depID (si # rest) addedStops stopSeq idata =
     (case scanIntervals names (Intervals si) (Map.empty(depID \<mapsto> 0)) addedStops stopSeq of
        (m, addedStops', stopSeq') \<Rightarrow>
          scanStationIntervals names depID rest addedStops' stopSeq'
            (idata(intervalKey (si_ID si) \<mapsto> m)))"

definition NewTimetableRenderer :: "TimetableResponse \<Rightarrow> error + TimetableRenderer" where
  "NewTimetableRenderer timetableResponse =
    (case Timetable timetableResponse of
       None \<Rightarrow> Inl NoTimetableData
     | Some tt \<Rightarrow>
        if length (Routes tt) = 0 then Inl NoTimetableData
        else (case findTargetRoute (Routes tt) of
           None \<Rightarrow> Inl NoSchedulesFound
         | Some route \<Rightarrow>
            let names = addStationNames (Stations timetableResponse)
                          (addStopNames (Stops timetableResponse) Map.empty);
                depID = DepartureStopID tt;
                built = scanStationIntervals names depID (StationIntervals route) {depID}
                          [\<lparr>stop_id = depID, stop_name = nameOf names depID\<rparr>] Map.empty
            in Inr \<lparr>timetable = timetableResponse,
                    targetRoute = route,
                    schedule = Schedules route ! 0,
                    stationNames = names,
                    stops = fst built,
                    intervalData = snd built\<rparr>))"

section \<open>The text renderer\<close>

datatype panic = NilPointerDereference | NegativeRepeatCount | SliceBoundsOutOfRange

definition newline :: string where
  "newline = [CHR 0x0A]"

definition selectJourneys :: "int \<Rightarrow> KnownJourney list \<Rightarrow> KnownJourney list" where
  "selectJourneys maxJourneys journeys =
     (if maxJourneys > 0 \<and> int (length journeys) > maxJourneys
      then take (nat maxJourneys) journeys else journeys)"

definition headerCells :: "nat \<Rightarrow> string" where
  "headerCells n =
     concat (map (\<lambda>i. '' | '' @ Fprintf_left 10 (''Train '' @ digits10 (i + 1))) [0..<n])"

text \<open>
  \<open>strings.Repeat\<close> panics on a negative count. It also fails where the result cannot
  be allocated (counts of the order of \<open>2 ^ 48\<close> and beyond); that limit depends on the
  machine and is not modelled, so nothing below relies on \<open>Repeat\<close> returning for
  such counts.
\<close>

definition Repeat :: "string \<Rightarrow> int \<Rightarrow> panic + string" where
  "Repeat s count =
     (if count < 0 then Inl NegativeRepeatCount else Inr (concat (replicate (nat count) s)))"

text \<open>The two-valued lookup \<open>offsets, ok\<close> with its fallback; \<open>None\<close> is \<open>ok = false\<close>.\<close>

definition lookupOffsets :: "TimetableRenderer \<Rightarrow> KnownJourney \<Rightarrow> (string \<rightharpoonup> float64) option" where
  "lookupOffsets tr j =
    (case intervalData tr (IntervalID j) of
       Some offsets \<Rightarrow> Some offsets
     | None \<Rightarrow>
        (case StationIntervals (targetRoute tr) of
           [] \<Rightarrow> None
         | si # _ \<Rightarrow>
            Some (case intervalData tr (intervalKey (si_ID si)) of
                    None \<Rightarrow> Map.empty
                  | Some offsets \<Rightarrow> offsets)))"

definition cellText :: "TimetableRenderer \<Rightarrow> stopInfo \<Rightarrow> KnownJourney \<Rightarrow> string" where
  "cellText tr s j =
    (case lookupOffsets tr j of
       Some offsets \<Rightarrow>
        (case offsets (stop_id s) of
           Some off \<Rightarrow> calculateArrivalTime (Hour j) (Minute j) off
         | None \<Rightarrow> ''---'')
     | None \<Rightarrow> ''err'')"

definition cell :: "TimetableRenderer \<Rightarrow> stopInfo \<Rightarrow> KnownJourney \<Rightarrow> string" where
  "cell tr s j = '' | '' @ Fprintf_left 10 (cellText tr s j)"

text \<open>The slice \<open>name[:stationColWidth-3]\<close> panics when its bound is out of range.\<close>

definition truncateName :: "int \<Rightarrow> string \<Rightarrow> panic + string" where
  "truncateName stationColWidth name =
    (if int (length name) > stationColWidth
     then (if stationColWidth - 3 < 0 \<or> int (length name) < stationColWidth - 3
           then Inl SliceBoundsOutOfRange
           else Inr (take (nat (stationColWidth - 3)) name @ ''...''))
     else Inr name)"

definition renderRow ::
  "TimetableRenderer \<Rightarrow> int \<Rightarrow> KnownJourney list \<Rightarrow> stopInfo \<Rightarrow> panic + string" where
  "renderRow tr stationColWidth journeys s =
    (case truncateName stationColWidth (stop_name s) of
       Inl p \<Rightarrow> Inl p
     | Inr name \<Rightarrow>
        Inr (Fprintf_left stationColWidth name @ concat (map (cell tr s) journeys) @ newline))"

fun renderRows ::
  "TimetableRenderer \<Rightarrow> int \<Rightarrow> KnownJourney list \<Rightarrow> stopInfo list \<Rightarrow> panic + string" where
  "renderRows tr stationColWidth journeys [] = Inr []"
| "renderRows tr stationColWidth journeys (s # ss) =
    (case renderRow tr stationColWidth journeys s of
       Inl p \<Rightarrow> Inl p
     | Inr row \<Rightarrow>
        (case renderRows tr stationColWidth journeys ss of
           Inl p \<Rightarrow> Inl p
         | Inr rows \<Rightarrow> Inr (row @ rows)))"

definition RenderAsText :: "TimetableRenderer \<Rightarrow> int \<Rightarrow> int \<Rightarrow> panic + string" where
  "RenderAsText tr maxJourneys stationColWidth =
    (case Timetable (timetable tr) of
       None \<Rightarrow> Inl NilPointerDereference
     | Some tt \<Rightarrow>
        let journeys = selectJourneys maxJourneys (KnownJourneys (schedule tr))
        in (case Repeat ''-'' (wrap64 (stationColWidth + wrap64 (int (length journeys) * 13))) of
              Inl p \<Rightarrow> Inl p
            | Inr dashes \<Rightarrow>
               (case renderRows tr stationColWidth journeys (stops tr) of
                  Inl p \<Rightarrow> Inl p
                | Inr rows \<Rightarrow>
                   Inr (''Timetable for '' @ LineName (timetable tr) @ '' at ''
                        @ DepartureStopID tt @ newline @ newline
                        @ ''Schedule: '' @ sch_Name (schedule tr) @ newline
                        @ Fprintf_left stationColWidth ''Station''
                        @ headerCells (length journeys) @ newline
                        @ dashes @ newline
                        @ rows))))"

section \<open>The station and line resolver\<close>

datatype Place = Place (place_ID: string) (place_Children: "Place list")

record Identifier =
  line_ID :: string

record StopPoint =
  sp_ID :: string
  sp_NaptanID :: string
  sp_Children :: "Place list"
  sp_Lines :: "Identifier list"

record SearchMatch =
  match_ID :: string

record LineStopPair =
  LineID :: string
  StopPointID :: string

text \<open>
  The remote service is reached through two operations of a client. A call may change
  the client and the service, so each operation takes a state and returns the next one
  with its answer; an answer is an upstream error (its message) or a payload.
\<close>

record 'c ClientService =
  StopPointSearch :: "'c \<Rightarrow> string \<Rightarrow> string list \<Rightarrow> (string + SearchMatch list) \<times> 'c"
  StopPointGet :: "'c \<Rightarrow> string list \<Rightarrow> (string + StopPoint list) \<times> 'c"

datatype resolve_error =
  SearchFailed string
| FetchStopPointsFailed string
| FetchChildStopPointsFailed string

fun getSpecificIDsFromChildren :: "Place list \<Rightarrow> string list" where
  "getSpecificIDsFromChildren [] = []"
| "getSpecificIDsFromChildren (Place i children # places) =
     (if HasPrefix i ''940G'' then [i] else [])
     @ getSpecificIDsFromChildren children
     @ getSpecificIDsFromChildren places"

text \<open>The workaround before the first batch call.\<close>

definition padFirstBatch :: "string list \<Rightarrow> string list" where
  "padFirstBatch ids =
     (if length ids = 1
      then ids @ [if ids ! 0 = ''HUBAMR'' then ''HUBRMD'' else ''HUBAMR'']
      else ids)"

text \<open>The loop over the first batch's payload, collecting the identifiers to fetch next.\<close>

fun collectNaptanIDs :: "string \<Rightarrow> StopPoint list \<Rightarrow> string list" where
  "collectNaptanIDs stationName [] = []"
| "collectNaptanIDs stationName (sp # rest) =
     (if sp_ID sp = ''HUBAMR'' \<and> stationName \<noteq> ''Amersham''
      then collectNaptanIDs stationName rest
      else if HasPrefix (sp_ID sp) ''HUB''
      then getSpecificIDsFromChildren (sp_Children sp) @ collectNaptanIDs stationName rest
      else sp_ID sp # collectNaptanIDs stationName rest)"

text \<open>The workaround before the second batch call.\<close>

definition padSecondBatch :: "string list \<Rightarrow> string list" where
  "padSecondBatch naptanIDs =
     (if length naptanIDs = 1 then naptanIDs @ [''HUBAMR''] else naptanIDs)"

text \<open>The loop over the second batch's payload, emitting the pairs.\<close>

fun emitPairs :: "string \<Rightarrow> StopPoint list \<Rightarrow> LineStopPair list" where
  "emitPairs stationName [] = []"
| "emitPairs stationName (sp # rest) =
     (if HasPrefix (sp_ID sp) ''HUB'' \<and> (stationName \<noteq> ''Amersham'' \<or> sp_ID sp \<noteq> ''HUBAMR'')
      then emitPairs stationName rest
      else map (\<lambda>l. \<lparr>LineID = line_ID l, StopPointID = sp_NaptanID sp\<rparr>) (sp_Lines sp)
           @ emitPairs stationName rest)"

definition getLinesAndStops ::
  "'c ClientService \<Rightarrow> 'c \<Rightarrow> string \<Rightarrow> string \<Rightarrow> (resolve_error + LineStopPair list) \<times> 'c" where
  "getLinesAndStops stopPointClient c0 stationName mode =
    (case StopPointSearch stopPointClient c0 stationName [mode] of
       (Inl err, c1) \<Rightarrow> (Inl (SearchFailed err), c1)
     | (Inr matches, c1) \<Rightarrow>
        if length matches = 0 then (Inr [], c1)
        else (case StopPointGet stopPointClient c1 (padFirstBatch (map match_ID matches)) of
           (Inl err, c2) \<Rightarrow> (Inl (FetchStopPointsFailed err), c2)
         | (Inr payload, c2) \<Rightarrow>
            let naptanIDs = collectNaptanIDs stationName payload
            in if length naptanIDs > 0
               then (case StopPointGet stopPointClient c2 (padSecondBatch naptanIDs) of
                  (Inl err, c3) \<Rightarrow> (Inl (FetchChildStopPointsFailed err), c3)
                | (Inr payload2, c3) \<Rightarrow> (Inr (emitPairs stationName payload2), c3))
               else (Inr [], c2)))"

section \<open>The model builder on a payload with null elements\<close>

text \<open>
  A JSON null inside an array is decoded to a nil pointer in the slice, and the builder
  dereferences every element it reads without a check. Here each slice the builder
  iterates is a list of options, \<open>None\<close> the nil pointer, and the builder has three
  outcomes: it returns a renderer, it fails with an error, or it panics. The loops are the
  ones of the builder above with the dereference made explicit. The schedules of a route
  are only counted, and the first one stored, never dereferenced.
\<close>

record DecodedStationInterval =
  d_ID :: string
  d_Intervals :: "Interval option list"

record DecodedRoute =
  d_StationIntervals :: "DecodedStationInterval option list"
  d_Schedules :: "Schedule option list"

record DecodedTimetable =
  d_DepartureStopID :: string
  d_Routes :: "DecodedRoute option list"

record DecodedResponse =
  d_LineName :: string
  d_Timetable :: "DecodedTimetable option"
  d_Stops :: "MatchedStop option list"
  d_Stations :: "MatchedStop option list"

record DecodedRenderer =
  d_timetable :: DecodedResponse
  d_targetRoute :: DecodedRoute
  d_schedule :: "Schedule option"
  d_stationNames :: "string \<rightharpoonup> string"
  d_stops :: "stopInfo list"
  d_intervalData :: "32 word \<rightharpoonup> (string \<rightharpoonup> float64)"

datatype 'a outcome = Returned 'a | Failed error | Panicked panic

fun findTargetRoute_decoded :: "DecodedRoute option list \<Rightarrow> panic + DecodedRoute option" where
  "findTargetRoute_decoded [] = Inr None"
| "findTargetRoute_decoded (None # rs) = Inl NilPointerDereference"
| "findTargetRoute_decoded (Some r # rs) =
     (if length (d_Schedules r) > 0 then Inr (Some r) else findTargetRoute_decoded rs)"

fun addStopNames_decoded ::
  "MatchedStop option list \<Rightarrow> (string \<rightharpoonup> string) \<Rightarrow> panic + (string \<rightharpoonup> string)" where
  "addStopNames_decoded [] names = Inr names"
| "addStopNames_decoded (None # ss) names = Inl NilPointerDereference"
| "addStopNames_decoded (Some s # ss) names =
     addStopNames_decoded ss (names(ms_ID s \<mapsto> ms_Name s))"

fun addStationNames_decoded ::
  "MatchedStop option list \<Rightarrow> (string \<rightharpoonup> string) \<Rightarrow> panic + (string \<rightharpoonup> string)" where
  "addStationNames_decoded [] names = Inr names"
| "addStationNames_decoded (None # ss) names = Inl NilPointerDereference"
| "addStationNames_decoded (Some s # ss) names =
     (if names (ms_ID s) = None
      then addStationNames_decoded ss (names(ms_ID s \<mapsto> ms_Name s @ '' [S]''))
      else addStationNames_decoded ss names)"

fun scanIntervals_decoded ::
  "(string \<rightharpoonup> string) \<Rightarrow> Interval option list \<Rightarrow> (string \<rightharpoonup> float64) \<Rightarrow> string set
    \<Rightarrow> stopInfo list \<Rightarrow> panic + (string \<rightharpoonup> float64) \<times> string set \<times> stopInfo list" where
  "scanIntervals_decoded names [] m addedStops stopSeq = Inr (m, addedStops, stopSeq)"
| "scanIntervals_decoded names (None # rest) m addedStops stopSeq = Inl NilPointerDereference"
| "scanIntervals_decoded names (Some intv # rest) m addedStops stopSeq =
     (if StopID intv \<notin> addedStops
      then scanIntervals_decoded names rest (m(StopID intv \<mapsto> TimeToArrival intv))
             (insert (StopID intv) addedStops)
             (stopSeq @ [\<lparr>stop_id = StopID intv, stop_name = nameOf names (StopID intv)\<rparr>])
      else scanIntervals_decoded names rest (m(StopID intv \<mapsto> TimeToArrival intv))
             addedStops stopSeq)"

fun scanStationIntervals_decoded ::
  "(string \<rightharpoonup> string) \<Rightarrow> string \<Rightarrow> DecodedStationInterval option list \<Rightarrow> string set
    \<Rightarrow> stopInfo list \<Rightarrow> (32 word \<rightharpoonup> (string \<rightharpoonup> float64))
    \<Rightarrow> panic + stopInfo list \<times> (32 word \<rightharpoonup> (string \<rightharpoonup> float64))" where
  "scanStationIntervals_decoded names depID [] addedStops stopSeq idata = Inr (stopSeq, idata)"
| "scanStationIntervals_decoded names depID (None # rest) addedStops stopSeq idata =
     Inl NilPointerDereference"
| "scanStationIntervals_decoded names depID (Some si # rest) addedStops stopSeq idata =
     (case scanIntervals_decoded names (d_Intervals si) (Map.empty(depID \<mapsto> 0))
             addedStops stopSeq of
        Inl p \<Rightarrow> Inl p
      | Inr (m, addedStops', stopSeq') \<Rightarrow>
          scanStationIntervals_decoded names depID rest addedStops' stopSeq'
            (idata(intervalKey (d_ID si) \<mapsto> m)))"

definition NewTimetableRenderer_decoded :: "DecodedResponse \<Rightarrow> DecodedRenderer outcome" where
  "NewTimetableRenderer_decoded timetableResponse =
    (case d_Timetable timetableResponse of
       None \<Rightarrow> Failed NoTimetableData
     | Some tt \<Rightarrow>
        if length (d_Routes tt) = 0 then Failed NoTimetableData
        else (case findTargetRoute_decoded (d_Routes tt) of
           Inl p \<Rightarrow> Panicked p
         | Inr None \<Rightarrow> Failed NoSchedulesFound
         | Inr (Some route) \<Rightarrow>
            (case addStopNames_decoded (d_Stops timetableResponse) Map.empty of
               Inl p \<Rightarrow> Panicked p
             | Inr stopNames \<Rightarrow>
                (case addStationNames_decoded (d_Stations timetableResponse) stopNames of
                   Inl p \<Rightarrow> Panicked p
                 | Inr names \<Rightarrow>
                    (case scanStationIntervals_decoded names (d_DepartureStopID tt)
                            (d_StationIntervals route) {d_DepartureStopID tt}
                            [\<lparr>stop_id = d_DepartureStopID tt,
                              stop_name = nameOf names (d_DepartureStopID tt)\<rparr>] Map.empty of
                       Inl p \<Rightarrow> Panicked p
                     | Inr built \<Rightarrow>
                        Returned \<lparr>d_timetable = timetableResponse,
                                  d_targetRoute = route,
                                  d_schedule = d_Schedules route ! 0,
                                  d_stationNames = names,
                                  d_stops = fst built,
                                  d_intervalData = snd built\<rparr>)))))"

text \<open>A payload without nulls, and the renderer built from it, as decoded values.\<close>

definition decodedGroup :: "StationInterval \<Rightarrow> DecodedStationInterval" where
  "decodedGroup si = \<lparr>d_ID = si_ID si, d_Intervals = map Some (Intervals si)\<rparr>"

definition decodedRoute :: "TimetableRoute \<Rightarrow> DecodedRoute" where
  "decodedRoute r =
     \<lparr>d_StationIntervals = map (\<lambda>si. Some (decodedGroup si)) (StationIntervals r),
      d_Schedules = map Some (Schedules r)\<rparr>"

definition decodedTimetable :: "TimetableEntity \<Rightarrow> DecodedTimetable" where
  "decodedTimetable tt =
     \<lparr>d_DepartureStopID = DepartureStopID tt,
      d_Routes = map (\<lambda>r. Some (decodedRoute r)) (Routes tt)\<rparr>"

definition decodedResponse :: "TimetableResponse \<Rightarrow> DecodedResponse" where
  "decodedResponse resp =
     \<lparr>d_LineName = LineName resp,
      d_Timetable = map_option decodedTimetable (Timetable resp),
      d_Stops = map Some (Stops resp),
      d_Stations = map Some (Stations resp)\<rparr>"

definition decodedRenderer :: "TimetableRenderer \<Rightarrow> DecodedRenderer" where
  "decodedRenderer tr =
     \<lparr>d_timetable = decodedResponse (timetable tr),
      d_targetRoute = decodedRoute (targetRoute tr),
      d_schedule = Some (schedule tr),
      d_stationNames = stationNames tr,
      d_stops = stops tr,
      d_intervalData = intervalData tr\<rparr>"

text \<open>
  A response has a route with at least one schedule; and a response has no null among
  its routes, stops, stations, interval groups and interval entries.
\<close>

definition hasScheduledRoute :: "DecodedResponse \<Rightarrow> bool" where
  "hasScheduledRoute resp =
     (case d_Timetable resp of
        None \<Rightarrow> False
      | Some tt \<Rightarrow>
         list_ex (\<lambda>r. case r of None \<Rightarrow> False | Some route \<Rightarrow> d_Schedules route \<noteq> [])
           (d_Routes tt))"

definition nullFreeGroups :: "DecodedStationInterval option list \<Rightarrow> bool" where
  "nullFreeGroups groups =
     list_all (\<lambda>g. case g of None \<Rightarrow> False
                           | Some si \<Rightarrow> list_all (\<lambda>i. i \<noteq> None) (d_Intervals si)) groups"

definition nullFree :: "DecodedResponse \<Rightarrow> bool" where
  "nullFree resp =
     (list_all (\<lambda>s. s \<noteq> None) (d_Stops resp)
      \<and> list_all (\<lambda>s. s \<noteq> None) (d_Stations resp)
      \<and> (case d_Timetable resp of
            None \<Rightarrow> True
          | Some tt \<Rightarrow>
             list_all (\<lambda>r. case r of None \<Rightarrow> False
                                   | Some route \<Rightarrow> nullFreeGroups (d_StationIntervals route))
               (d_Routes tt)))"

section \<open>Notions of the specification\<close>

text \<open>The stop identifiers appearing across all interval groups of a route, in scan order.\<close>

definition groupStopIDs :: "TimetableRoute \<Rightarrow> string list" where
  "groupStopIDs route = concat (map (\<lambda>si. map StopID (Intervals si)) (StationIntervals route))"

text \<open>A sequence reduced to the first appearance of each element.\<close>

fun firstOccurrences :: "'a list \<Rightarrow> 'a list" where
  "firstOccurrences [] = []"
| "firstOccurrences (x # xs) = x # filter (\<lambda>y. y \<noteq> x) (firstOccurrences xs)"

text \<open>
  What a group's entries say about the departure stop: the offset of the last entry
  listing it, and 0 when no entry does.
\<close>

definition departureOffset :: "string \<Rightarrow> StationInterval \<Rightarrow> float64" where
  "departureOffset depID si =
     (case filter (\<lambda>intv. StopID intv = depID) (Intervals si) of
        [] \<Rightarrow> 0
      | intv # rest \<Rightarrow> TimeToArrival (last (intv # rest)))"

text \<open>
  A group's own offset table: the departure stop at 0, then every entry of the group,
  a later entry for a stop replacing an earlier one.
\<close>

definition offsetTable :: "string \<Rightarrow> StationInterval \<Rightarrow> (string \<rightharpoonup> float64)" where
  "offsetTable depID si =
     [depID \<mapsto> 0] ++ map_of (rev (map (\<lambda>intv. (StopID intv, TimeToArrival intv)) (Intervals si)))"

text \<open>All identifiers below a list of places, parents before children, in the given order.\<close>

fun descendantIDs :: "Place list \<Rightarrow> string list" where
  "descendantIDs [] = []"
| "descendantIDs (Place i children # places) = i # descendantIDs children @ descendantIDs places"

text \<open>A client whose batch answers have every stop point identified as \<open>HUBAMR\<close> removed.\<close>

definition withoutHUBAMR :: "'c ClientService \<Rightarrow> 'c ClientService" where
  "withoutHUBAMR cl =
     cl\<lparr>StopPointGet := \<lambda>c ids.
          (case StopPointGet cl c ids of
             (Inl err, c') \<Rightarrow> (Inl err, c')
           | (Inr payload, c') \<Rightarrow> (Inr (filter (\<lambda>sp. sp_ID sp \<noteq> ''HUBAMR'') payload), c'))\<rparr>"

text \<open>A client that records the identifier list of every batch call in its state.\<close>

definition recording :: "'c ClientService \<Rightarrow> ('c \<times> string list list) ClientService" where
  "recording cl =
     \<lparr>StopPointSearch = \<lambda>(c, log) q modes.
          (case StopPointSearch cl c q modes of (r, c') \<Rightarrow> (r, (c', log))),
      StopPointGet = \<lambda>(c, log) ids.
          (case StopPointGet cl c ids of (r, c') \<Rightarrow> (r, (c', log @ [ids])))\<rparr>"


section \<open>Sample payloads\<close>

text \<open>
  A response with two routes, the first of them without schedules, parametrised by the
  interval groups and the journeys of the second.
\<close>

definition sampleResponse :: "StationInterval list \<Rightarrow> KnownJourney list \<Rightarrow> TimetableResponse" where
  "sampleResponse groups journeys =
     \<lparr>LineName = ''district'',
      Timetable = Some
        \<lparr>DepartureStopID = ''DEP'',
         Routes =
           [\<lparr>StationIntervals = [\<lparr>si_ID = ''7'', Intervals = [\<lparr>StopID = ''X'', TimeToArrival = 3\<rparr>]\<rparr>],
             Schedules = []\<rparr>,
            \<lparr>StationIntervals = groups,
             Schedules = [\<lparr>sch_Name = ''Monday - Friday'', KnownJourneys = journeys\<rparr>,
                          \<lparr>sch_Name = ''Saturday'', KnownJourneys = []\<rparr>]\<rparr>]\<rparr>,
      Stops = [\<lparr>ms_ID = ''DEP'', ms_Name = ''Richmond''\<rparr>, \<lparr>ms_ID = ''A'', ms_Name = ''Kew Gardens''\<rparr>],
      Stations = [\<lparr>ms_ID = ''A'', ms_Name = ''Kew''\<rparr>, \<lparr>ms_ID = ''B'', ms_Name = ''Gunnersbury''\<rparr>]\<rparr>"

definition sampleGroups :: "StationInterval list" where
  "sampleGroups =
     [\<lparr>si_ID = ''1'', Intervals = [\<lparr>StopID = ''A'', TimeToArrival = 5\<rparr>,
                                   \<lparr>StopID = ''B'', TimeToArrival = 12\<rparr>]\<rparr>,
      \<lparr>si_ID = ''2'', Intervals = [\<lparr>StopID = ''A'', TimeToArrival = 8\<rparr>,
                                   \<lparr>StopID = ''C'', TimeToArrival = 15\<rparr>,
                                   \<lparr>StopID = ''B'', TimeToArrival = 20\<rparr>]\<rparr>]"

definition sampleJourneys :: "KnownJourney list" where
  "sampleJourneys =
     [\<lparr>Hour = ''10'', Minute = ''00'', IntervalID = 1\<rparr>,
      \<lparr>Hour = ''10'', Minute = ''30'', IntervalID = 2\<rparr>,
      \<lparr>Hour = ''11'', Minute = ''00'', IntervalID = 3\<rparr>]"



definition groupsListingDeparture :: "StationInterval list" where
  "groupsListingDeparture =
     [\<lparr>si_ID = ''1'', Intervals = [\<lparr>StopID = ''DEP'', TimeToArrival = 7\<rparr>,
                                   \<lparr>StopID = ''A'', TimeToArrival = 5\<rparr>]\<rparr>]"

definition groupsSameID :: "StationInterval list" where
  "groupsSameID =
     [\<lparr>si_ID = ''1'', Intervals = [\<lparr>StopID = ''A'', TimeToArrival = 5\<rparr>]\<rparr>,
      \<lparr>si_ID = ''1'', Intervals = [\<lparr>StopID = ''A'', TimeToArrival = 8\<rparr>]\<rparr>]"

definition sampleRenderer :: "StationInterval list \<Rightarrow> TimetableRenderer" where
  "sampleRenderer groups = projr (NewTimetableRenderer (sampleResponse groups sampleJourneys))"

definition stopKew :: stopInfo where
  "stopKew = \<lparr>stop_id = ''A'', stop_name = ''Kew Gardens''\<rparr>"

text \<open>
  A client answering a search with fixed matches and a batch call with the stop points of
  a table, in the order of the identifiers requested.
\<close>

definition tableClient :: "string list \<Rightarrow> StopPoint list \<Rightarrow> unit ClientService" where
  "tableClient matchIDs table =
     \<lparr>StopPointSearch = \<lambda>c q modes. (Inr (map (\<lambda>i. \<lparr>match_ID = i\<rparr>) matchIDs), c),
      StopPointGet = \<lambda>c ids. (Inr (concat (map (\<lambda>i. filter (\<lambda>sp. sp_ID sp = i) table) ids)), c)\<rparr>"

definition spRichmond :: StopPoint where
  "spRichmond = \<lparr>sp_ID = ''940GZZLURMD'', sp_NaptanID = ''940GZZLURMD'', sp_Children = [],
                 sp_Lines = [\<lparr>line_ID = ''district''\<rparr>]\<rparr>"

definition spAmersham :: StopPoint where
  "spAmersham = \<lparr>sp_ID = ''940GZZLUAMS'', sp_NaptanID = ''940GZZLUAMS'', sp_Children = [],
                 sp_Lines = [\<lparr>line_ID = ''metropolitan''\<rparr>]\<rparr>"

definition hubAmersham :: "Place list \<Rightarrow> StopPoint" where
  "hubAmersham children = \<lparr>sp_ID = ''HUBAMR'', sp_NaptanID = ''HUBAMR'', sp_Children = children,
                 sp_Lines = [\<lparr>line_ID = ''chiltern-railways''\<rparr>, \<lparr>line_ID = ''metropolitan''\<rparr>]\<rparr>"

definition hubRichmond :: StopPoint where
  "hubRichmond = \<lparr>sp_ID = ''HUBRMD'', sp_NaptanID = ''HUBRMD'',
                  sp_Children = [Place ''910GRICHMND'' []],
                  sp_Lines = [\<lparr>line_ID = ''district''\<rparr>]\<rparr>"

definition sampleTable :: "Place list \<Rightarrow> StopPoint list" where
  "sampleTable amershamChildren = [spRichmond, spAmersham, hubAmersham amershamChildren, hubRichmond]"

definition samplePlaces :: "Place list" where
  "samplePlaces =
     [Place ''940GZZLURMD'' [],
      Place ''HUBXYZ'' [Place ''940GZZLUKWG'' [],
                        Place ''HUBNEST'' [Place ''940GZZLUGBY'' []],
                        Place ''910GKEWGRDN'' []]]"

text \<open>
  Decoded payloads: one whose only route is null, one with a null stop beside a route
  with schedules, and one whose only route has no schedule.
\<close>

definition responseNullRoute :: DecodedResponse where
  "responseNullRoute =
     \<lparr>d_LineName = ''district'',
      d_Timetable = Some \<lparr>d_DepartureStopID = ''DEP'', d_Routes = [None]\<rparr>,
      d_Stops = [],
      d_Stations = []\<rparr>"

definition responseNullStop :: DecodedResponse where
  "responseNullStop =
     (decodedResponse (sampleResponse sampleGroups sampleJourneys))
       \<lparr>d_Stops := [Some \<lparr>ms_ID = ''DEP'', ms_Name = ''Richmond''\<rparr>, None]\<rparr>"

definition responseNoSchedule :: DecodedResponse where
  "responseNoSchedule =
     \<lparr>d_LineName = ''district'',
      d_Timetable = Some \<lparr>d_DepartureStopID = ''DEP'',
                          d_Routes = [Some \<lparr>d_StationIntervals = [], d_Schedules = []\<rparr>]\<rparr>,
      d_Stops = [],
      d_Stations = []\<rparr>"

section \<open>Properties of the arrival calculator\<close>













section \<open>Properties of the model builder\<close>

lemma findTargetRoute_None: "findTargetRoute rs = None \<longleftrightarrow> (\<forall>r\<in>set rs. Schedules r = [])"
  by (induction rs) auto

lemma findTargetRoute_Some:
  "findTargetRoute rs = Some r \<Longrightarrow>
     \<exists>i<length rs. rs ! i = r \<and> Schedules r \<noteq> [] \<and> (\<forall>j<i. Schedules (rs ! j) = [])"
proof (induction rs)
  case Nil
  then show ?case by simp
next
  case (Cons a rs)
  show ?case
  proof (cases "Schedules a = []")
    case True
    with Cons obtain i where i: "i < length rs" "rs ! i = r" "Schedules r \<noteq> []"
      "\<forall>j<i. Schedules (rs ! j) = []" by auto
    have "\<forall>j<Suc i. Schedules ((a # rs) ! j) = []"
      using True i(4) by (auto simp: nth_Cons split: nat.splits)
    with i show ?thesis by (intro exI[of _ "Suc i"]) auto
  next
    case False
    with Cons.prems show ?thesis by (intro exI[of _ 0]) auto
  qed
qed

lemma filter_firstOccurrences: "filter P (firstOccurrences xs) = firstOccurrences (filter P xs)"
proof (induction xs)
  case Nil
  then show ?case by simp
next
  case (Cons x xs)
  show ?case
  proof (cases "P x")
    case True
    have "filter P (filter (\<lambda>y. y \<noteq> x) (firstOccurrences xs))
          = filter (\<lambda>y. y \<noteq> x) (filter P (firstOccurrences xs))"
      by (simp add: conj_commute)
    with True Cons show ?thesis by simp
  next
    case False
    have "filter P (filter (\<lambda>y. y \<noteq> x) (firstOccurrences xs)) = filter P (firstOccurrences xs)"
      using False by (auto intro: filter_cong)
    with False Cons show ?thesis by simp
  qed
qed

lemma set_firstOccurrences: "set (firstOccurrences xs) = set xs"
  by (induction xs) auto

lemma distinct_firstOccurrences: "distinct (firstOccurrences xs)"
  by (induction xs) (auto simp: set_firstOccurrences)

lemma firstOccurrences_append:
  "firstOccurrences (xs @ ys) = firstOccurrences xs @ firstOccurrences (filter (\<lambda>y. y \<notin> set xs) ys)"
proof (induction xs arbitrary: ys)
  case Nil
  then show ?case by simp
next
  case (Cons x xs)
  have "filter (\<lambda>y. y \<noteq> x) (firstOccurrences (filter (\<lambda>y. y \<notin> set xs) ys))
        = firstOccurrences (filter (\<lambda>y. y \<notin> set (x # xs)) ys)"
    by (simp add: filter_firstOccurrences conj_commute)
  with Cons show ?case by simp
qed

lemma scanIntervals_stops:
  "scanIntervals names ivs m added st = (m', added', st') \<Longrightarrow>
     map stop_id st' = map stop_id st @ firstOccurrences (filter (\<lambda>x. x \<notin> added) (map StopID ivs))
     \<and> added' = added \<union> set (map StopID ivs)"
proof (induction ivs arbitrary: m added st)
  case Nil
  then show ?case by simp
next
  case (Cons intv rest)
  show ?case
  proof (cases "StopID intv \<in> added")
    case True
    with Cons show ?thesis by auto
  next
    case False
    have f: "filter (\<lambda>y. y \<noteq> StopID intv) (firstOccurrences (filter (\<lambda>x. x \<notin> added) (map StopID rest)))
      = firstOccurrences (filter (\<lambda>x. x \<notin> insert (StopID intv) added) (map StopID rest))"
      by (simp add: filter_firstOccurrences conj_commute)
    from False Cons.prems have
      "scanIntervals names rest (m(StopID intv \<mapsto> TimeToArrival intv)) (insert (StopID intv) added)
         (st @ [\<lparr>stop_id = StopID intv, stop_name = nameOf names (StopID intv)\<rparr>]) = (m', added', st')"
      by simp
    from Cons.IH[OF this] False f show ?thesis by simp
  qed
qed

lemma map_upd_add_rev:
  "m(k \<mapsto> v) ++ map_of (rev kvs) = m ++ map_of (rev ((k, v) # kvs))"
  by (rule ext) (simp add: map_add_def split: option.splits)

lemma scanIntervals_table:
  "fst (scanIntervals names ivs m added st)
     = m ++ map_of (rev (map (\<lambda>intv. (StopID intv, TimeToArrival intv)) ivs))"
proof (induction ivs arbitrary: m added st)
  case Nil
  then show ?case by simp
next
  case (Cons intv rest)
  let ?kvs = "map (\<lambda>intv. (StopID intv, TimeToArrival intv)) rest"
  let ?m = "m(StopID intv \<mapsto> TimeToArrival intv)"
  have "\<exists>added' st'. fst (scanIntervals names (intv # rest) m added st)
          = fst (scanIntervals names rest ?m added' st')"
    by (cases "StopID intv \<in> added") auto
  then obtain added' st' where
    "fst (scanIntervals names (intv # rest) m added st)
       = fst (scanIntervals names rest ?m added' st')" by blast
  also have "\<dots> = ?m ++ map_of (rev ?kvs)"
    by (rule Cons.IH)
  also have "\<dots> = m ++ map_of (rev ((StopID intv, TimeToArrival intv) # ?kvs))"
    by (rule map_upd_add_rev)
  finally show ?case by simp
qed

lemma scanStationIntervals_stops:
  "map stop_id (fst (scanStationIntervals names dep groups added st idata))
     = map stop_id st
       @ firstOccurrences (filter (\<lambda>x. x \<notin> added)
           (concat (map (\<lambda>si. map StopID (Intervals si)) groups)))"
proof (induction groups arbitrary: added st idata)
  case Nil
  then show ?case by simp
next
  case (Cons si rest)
  obtain m added' st' where
    s: "scanIntervals names (Intervals si) (Map.empty(dep \<mapsto> 0)) added st = (m, added', st')"
    by (cases "scanIntervals names (Intervals si) (Map.empty(dep \<mapsto> 0)) added st") auto
  from scanIntervals_stops[OF s] have
    st': "map stop_id st' = map stop_id st
            @ firstOccurrences (filter (\<lambda>x. x \<notin> added) (map StopID (Intervals si)))"
    and added': "added' = added \<union> set (map StopID (Intervals si))" by auto
  have "filter (\<lambda>y. y \<notin> set (filter (\<lambda>x. x \<notin> added) (map StopID (Intervals si))))
          (filter (\<lambda>x. x \<notin> added) ys) = filter (\<lambda>x. x \<notin> added') ys" for ys
    unfolding added' by (induction ys) auto
  then show ?case
    using s st' Cons.IH[of added' st'] by (simp add: firstOccurrences_append)
qed

lemma scanStationIntervals_tables:
  "snd (scanStationIntervals names dep groups added st idata)
     = idata ++ map_of (rev (map (\<lambda>si. (intervalKey (si_ID si), offsetTable dep si)) groups))"
proof (induction groups arbitrary: added st idata)
  case Nil
  then show ?case by simp
next
  case (Cons si rest)
  obtain m added' st' where
    s: "scanIntervals names (Intervals si) (Map.empty(dep \<mapsto> 0)) added st = (m, added', st')"
    by (cases "scanIntervals names (Intervals si) (Map.empty(dep \<mapsto> 0)) added st") auto
  have m: "m = offsetTable dep si"
    using scanIntervals_table[of names "Intervals si" "Map.empty(dep \<mapsto> 0)" added st] s
    by (simp add: offsetTable_def)
  let ?kvs = "map (\<lambda>si. (intervalKey (si_ID si), offsetTable dep si)) rest"
  have "snd (scanStationIntervals names dep (si # rest) added st idata)
          = snd (scanStationIntervals names dep rest added' st'
                  (idata(intervalKey (si_ID si) \<mapsto> offsetTable dep si)))"
    using s m by simp
  also have "\<dots> = idata(intervalKey (si_ID si) \<mapsto> offsetTable dep si) ++ map_of (rev ?kvs)"
    by (rule Cons.IH)
  also have "\<dots> = idata ++ map_of (rev ((intervalKey (si_ID si), offsetTable dep si) # ?kvs))"
    by (rule map_upd_add_rev)
  finally show ?case by simp
qed

lemma NewTimetableRenderer_Inr:
  assumes "NewTimetableRenderer resp = Inr tr"
  obtains tt route names where
    "Timetable resp = Some tt" "Routes tt \<noteq> []" "findTargetRoute (Routes tt) = Some route"
    "names = addStationNames (Stations resp) (addStopNames (Stops resp) Map.empty)"
    "timetable tr = resp" "targetRoute tr = route" "schedule tr = Schedules route ! 0"
    "stops tr = fst (scanStationIntervals names (DepartureStopID tt) (StationIntervals route)
                  {DepartureStopID tt}
                  [\<lparr>stop_id = DepartureStopID tt, stop_name = nameOf names (DepartureStopID tt)\<rparr>]
                  Map.empty)"
    "intervalData tr = snd (scanStationIntervals names (DepartureStopID tt) (StationIntervals route)
                  {DepartureStopID tt}
                  [\<lparr>stop_id = DepartureStopID tt, stop_name = nameOf names (DepartureStopID tt)\<rparr>]
                  Map.empty)"
  using assms
  by (auto simp: NewTimetableRenderer_def Let_def split: option.splits if_splits)

lemma NewTimetableRenderer_Inl:
  "(\<exists>e. NewTimetableRenderer resp = Inl e)
     \<longleftrightarrow> \<not> (\<exists>tt. Timetable resp = Some tt \<and> (\<exists>r\<in>set (Routes tt). Schedules r \<noteq> []))"
proof (cases "Timetable resp")
  case None
  then show ?thesis by (simp add: NewTimetableRenderer_def)
next
  case (Some tt)
  show ?thesis
  proof (cases "findTargetRoute (Routes tt)")
    case None
    then have "\<forall>r\<in>set (Routes tt). Schedules r = []"
      by (simp add: findTargetRoute_None)
    with Some None show ?thesis
      by (auto simp: NewTimetableRenderer_def)
  next
    case (Some route)
    from findTargetRoute_Some[OF this] have "\<exists>r\<in>set (Routes tt). Schedules r \<noteq> []"
      by (metis nth_mem)
    moreover from this have "Routes tt \<noteq> []" by auto
    ultimately show ?thesis
      using Some \<open>Timetable resp = Some tt\<close>
      by (auto simp: NewTimetableRenderer_def Let_def)
  qed
qed

lemma built_stop_ids:
  assumes "NewTimetableRenderer resp = Inr tr" "Timetable resp = Some tt"
  shows "map stop_id (stops tr)
           = firstOccurrences (DepartureStopID tt # groupStopIDs (targetRoute tr))"
proof -
  from assms(1) obtain tt' route names where
    b: "Timetable resp = Some tt'" "targetRoute tr = route"
    "stops tr = fst (scanStationIntervals names (DepartureStopID tt') (StationIntervals route)
                  {DepartureStopID tt'}
                  [\<lparr>stop_id = DepartureStopID tt', stop_name = nameOf names (DepartureStopID tt')\<rparr>]
                  Map.empty)"
    by (rule NewTimetableRenderer_Inr)
  with assms(2) have [simp]: "tt' = tt" by simp
  show ?thesis
    unfolding b(3) scanStationIntervals_stops b(2) groupStopIDs_def
    by (simp add: filter_firstOccurrences)
qed

lemma built_intervalData:
  assumes "NewTimetableRenderer resp = Inr tr" "Timetable resp = Some tt"
  shows "intervalData tr
           = map_of (rev (map (\<lambda>si. (intervalKey (si_ID si), offsetTable (DepartureStopID tt) si))
                            (StationIntervals (targetRoute tr))))"
proof -
  from assms(1) obtain tt' route names where
    b: "Timetable resp = Some tt'" "targetRoute tr = route"
    "intervalData tr = snd (scanStationIntervals names (DepartureStopID tt') (StationIntervals route)
                  {DepartureStopID tt'}
                  [\<lparr>stop_id = DepartureStopID tt', stop_name = nameOf names (DepartureStopID tt')\<rparr>]
                  Map.empty)"
    by (rule NewTimetableRenderer_Inr)
  with assms(2) have [simp]: "tt' = tt" by simp
  show ?thesis
    unfolding b(3) scanStationIntervals_tables b(2) by simp
qed

lemma length_firstOccurrences: "length (firstOccurrences xs) = card (set xs)"
  by (metis distinct_card distinct_firstOccurrences set_firstOccurrences)

lemma offsetTable_departure:
  "offsetTable dep si dep = Some (departureOffset dep si)"
proof -
  have "([dep \<mapsto> 0] ++ map_of (rev (map (\<lambda>intv. (StopID intv, TimeToArrival intv)) ivs))) dep
        = Some (case filter (\<lambda>intv. StopID intv = dep) ivs of
                  [] \<Rightarrow> 0 | intv # rest \<Rightarrow> TimeToArrival (last (intv # rest)))" for ivs
  proof (induction ivs rule: rev_induct)
    case Nil
    then show ?case by simp
  next
    case (snoc x xs)
    then show ?case
      by (cases "filter (\<lambda>intv. StopID intv = dep) xs") (auto simp: map_add_def)
  qed
  then show ?thesis by (simp add: offsetTable_def departureOffset_def)
qed

lemma departureOffset_omitted:
  "dep \<notin> StopID ` set (Intervals si) \<Longrightarrow> departureOffset dep si = 0"
proof -
  assume "dep \<notin> StopID ` set (Intervals si)"
  then have "filter (\<lambda>intv. StopID intv = dep) (Intervals si) = []"
    by (auto simp: filter_empty_conv)
  then show ?thesis by (simp add: departureOffset_def)
qed

lemma map_of_rev_first:
  "\<forall>p\<in>set kvs. fst p \<noteq> k \<Longrightarrow> map_of (rev ((k, v) # kvs)) k = Some v"
proof -
  assume "\<forall>p\<in>set kvs. fst p \<noteq> k"
  then have "map_of (rev kvs) k = None"
    by (auto simp: map_of_eq_None_iff)
  then show ?thesis by (simp add: map_add_def)
qed

lemmas sample_defs =
  NewTimetableRenderer_def sampleRenderer_def sampleResponse_def sampleGroups_def sampleJourneys_def
  groupsListingDeparture_def groupsSameID_def Let_def intervalKey_def ParseInt32_def isDigit_def byte_def

lemma sample_built:
  "NewTimetableRenderer (sampleResponse groups sampleJourneys) = Inr (sampleRenderer groups)"
  by (simp add: NewTimetableRenderer_def sampleRenderer_def sampleResponse_def Let_def)

lemma sample_timetable:
  "Timetable (sampleResponse groups journeys) = Some (the (Timetable (sampleResponse groups journeys)))"
  by (simp add: sampleResponse_def)

text \<open>
  Claim C2, as the code has it. For every response the builder accepts, the stop sequence
  lists the departure stop followed by the stops of the selected route's interval groups,
  each at its first appearance while scanning the groups in their given order. It starts
  with the departure stop, has no duplicate, and its length is the number of distinct
  identifiers among the departure stop and the stops of the groups.
\<close>

theorem stop_sequence_first_appearance:
  assumes "NewTimetableRenderer resp = Inr tr" and "Timetable resp = Some tt"
  shows "map stop_id (stops tr)
           = firstOccurrences (DepartureStopID tt # groupStopIDs (targetRoute tr))
       \<and> stops tr \<noteq> [] \<and> stop_id (stops tr ! 0) = DepartureStopID tt
       \<and> distinct (map stop_id (stops tr))
       \<and> length (stops tr)
           = card (insert (DepartureStopID tt) (set (groupStopIDs (targetRoute tr))))"
proof -
  let ?ids = "DepartureStopID tt # groupStopIDs (targetRoute tr)"
  have ids: "map stop_id (stops tr) = firstOccurrences ?ids"
    using assms by (rule built_stop_ids)
  then have ne: "stops tr \<noteq> []" by auto
  have "map stop_id (stops tr) ! 0 = DepartureStopID tt"
    unfolding ids by simp
  with ne have first: "stop_id (stops tr ! 0) = DepartureStopID tt"
    by (simp add: nth_map)
  have d: "distinct (map stop_id (stops tr))"
    unfolding ids by (rule distinct_firstOccurrences)
  have "length (map stop_id (stops tr)) = card (set ?ids)"
    unfolding ids by (rule length_firstOccurrences)
  then have l: "length (stops tr)
       = card (insert (DepartureStopID tt) (set (groupStopIDs (targetRoute tr))))"
    by simp
  from ids ne first d l show ?thesis by blast
qed

theorem stop_sequence_first_appearance_witness:
  "NewTimetableRenderer (sampleResponse sampleGroups sampleJourneys) = Inr (sampleRenderer sampleGroups)
   \<and> groupStopIDs (targetRoute (sampleRenderer sampleGroups)) = [''A'', ''B'', ''A'', ''C'', ''B'']
   \<and> map stop_id (stops (sampleRenderer sampleGroups)) = [''DEP'', ''A'', ''B'', ''C'']
   \<and> distinct (map stop_id (stops (sampleRenderer sampleGroups)))
   \<and> length (stops (sampleRenderer sampleGroups)) = 4"
proof -
  have a: "NewTimetableRenderer (sampleResponse sampleGroups sampleJourneys)
             = Inr (sampleRenderer sampleGroups)"
    by (rule sample_built)
  have b: "Timetable (sampleResponse sampleGroups sampleJourneys)
             = Some (the (Timetable (sampleResponse sampleGroups sampleJourneys)))"
    by (rule sample_timetable)
  have c: "DepartureStopID (the (Timetable (sampleResponse sampleGroups sampleJourneys))) = ''DEP''"
    by (simp add: sampleResponse_def)
  have d: "groupStopIDs (targetRoute (sampleRenderer sampleGroups)) = [''A'', ''B'', ''A'', ''C'', ''B'']"
    by (simp add: groupStopIDs_def sample_defs)
  from stop_sequence_first_appearance[OF a b] a show ?thesis
    unfolding c d by (simp add: card_insert_if)
qed

text \<open>
  Claim C2 as stated counts only the identifiers appearing in the interval groups. The
  departure stop is a row of its own even when no group lists it: the sample has three
  distinct identifiers in its groups and four rows.
\<close>

theorem stop_sequence_length_counterexample:
  "NewTimetableRenderer (sampleResponse sampleGroups sampleJourneys) = Inr (sampleRenderer sampleGroups)
   \<and> length (stops (sampleRenderer sampleGroups)) = 4
   \<and> card (set (groupStopIDs (targetRoute (sampleRenderer sampleGroups)))) = 3"
proof -
  have "length (stops (sampleRenderer sampleGroups)) = 4"
    by (simp add: sample_defs)
  moreover have "card (set (groupStopIDs (targetRoute (sampleRenderer sampleGroups)))) = 3"
    by (simp add: groupStopIDs_def sample_defs card_insert_if)
  ultimately show ?thesis using sample_built by simp
qed

lemma map_of_rev_in_keys:
  "k \<in> fst ` set kvs \<Longrightarrow> \<exists>v. map_of (rev kvs) k = Some v \<and> (k, v) \<in> set kvs"
proof -
  assume "k \<in> fst ` set kvs"
  then have "map_of (rev kvs) k \<noteq> None"
    by (simp add: map_of_eq_None_iff)
  then obtain v where v: "map_of (rev kvs) k = Some v" by auto
  then have "(k, v) \<in> set (rev kvs)" by (rule map_of_SomeD)
  with v show ?thesis by auto
qed

text \<open>
  Claim C3, as the code has it. For every response the builder accepts and every interval
  group of the selected route, the table stored under the group's identifier is the offset
  table of a group of the route with that identifier (the group itself when no other
  group repeats it), and it contains the departure stop: at the offset of the last entry
  listing it, and at 0 when the entries omit the departure stop.
\<close>

theorem offset_table_departure_stop:
  assumes "NewTimetableRenderer resp = Inr tr" and "Timetable resp = Some tt"
    and "si \<in> set (StationIntervals (targetRoute tr))"
  shows "\<exists>sj\<in>set (StationIntervals (targetRoute tr)).
           intervalKey (si_ID sj) = intervalKey (si_ID si)
         \<and> intervalData tr (intervalKey (si_ID si)) = Some (offsetTable (DepartureStopID tt) sj)
         \<and> offsetTable (DepartureStopID tt) sj (DepartureStopID tt)
             = Some (departureOffset (DepartureStopID tt) sj)
         \<and> (DepartureStopID tt \<notin> StopID ` set (Intervals sj)
              \<longrightarrow> offsetTable (DepartureStopID tt) sj (DepartureStopID tt) = Some 0)"
proof -
  let ?dep = "DepartureStopID tt"
  let ?kvs = "map (\<lambda>si. (intervalKey (si_ID si), offsetTable ?dep si))
                (StationIntervals (targetRoute tr))"
  have d: "intervalData tr = map_of (rev ?kvs)"
    using assms(1,2) by (rule built_intervalData)
  have "intervalKey (si_ID si) \<in> fst ` set ?kvs"
    using assms(3) by force
  from map_of_rev_in_keys[OF this] obtain v where
    v: "map_of (rev ?kvs) (intervalKey (si_ID si)) = Some v"
    "(intervalKey (si_ID si), v) \<in> set ?kvs" by blast
  from v(2) obtain sj where sj: "sj \<in> set (StationIntervals (targetRoute tr))"
    "intervalKey (si_ID sj) = intervalKey (si_ID si)" "v = offsetTable ?dep sj"
    by auto
  have "offsetTable ?dep sj ?dep = Some (departureOffset ?dep sj)"
    by (rule offsetTable_departure)
  moreover have "?dep \<notin> StopID ` set (Intervals sj) \<longrightarrow> offsetTable ?dep sj ?dep = Some 0"
    by (simp add: offsetTable_departure departureOffset_omitted)
  ultimately show ?thesis using sj v(1) d by auto
qed

theorem offset_table_departure_stop_witness:
  "NewTimetableRenderer (sampleResponse sampleGroups sampleJourneys) = Inr (sampleRenderer sampleGroups)
   \<and> sampleGroups ! 1 \<in> set (StationIntervals (targetRoute (sampleRenderer sampleGroups)))
   \<and> ''DEP'' \<notin> StopID ` set (Intervals (sampleGroups ! 1))
   \<and> the (intervalData (sampleRenderer sampleGroups) (intervalKey (si_ID (sampleGroups ! 1)))) ''DEP''
       = Some 0"
proof -
  let ?resp = "sampleResponse sampleGroups sampleJourneys"
  have a: "NewTimetableRenderer ?resp = Inr (sampleRenderer sampleGroups)"
    by (rule sample_built)
  have b: "Timetable ?resp = Some (the (Timetable ?resp))"
    by (rule sample_timetable)
  have c: "DepartureStopID (the (Timetable ?resp)) = ''DEP''"
    by (simp add: sampleResponse_def)
  have g: "StationIntervals (targetRoute (sampleRenderer sampleGroups)) = sampleGroups"
    by (simp add: NewTimetableRenderer_def sampleRenderer_def sampleResponse_def Let_def)
  have m: "sampleGroups ! 1 \<in> set (StationIntervals (targetRoute (sampleRenderer sampleGroups)))"
    unfolding g by (simp add: sampleGroups_def)
  have k: "\<forall>sj\<in>set sampleGroups. intervalKey (si_ID sj) = intervalKey (si_ID (sampleGroups ! 1))
             \<longrightarrow> ''DEP'' \<notin> StopID ` set (Intervals sj)"
    by (simp add: sample_defs)
  have n: "''DEP'' \<notin> StopID ` set (Intervals (sampleGroups ! 1))"
    by (simp add: sampleGroups_def)
  from offset_table_departure_stop[OF a b m] k
  have "the (intervalData (sampleRenderer sampleGroups) (intervalKey (si_ID (sampleGroups ! 1)))) ''DEP''
       = Some 0"
    unfolding c g by auto
  with a m n show ?thesis by simp
qed

text \<open>
  Claim C3 as stated also promises offset 0 when the entries list the departure stop with
  another offset. The table is seeded with 0 and the entries are written over it: a group
  listing the departure stop at 7 has it at 7.
\<close>

theorem offset_table_departure_listed_counterexample:
  "NewTimetableRenderer (sampleResponse groupsListingDeparture sampleJourneys)
     = Inr (sampleRenderer groupsListingDeparture)
   \<and> StationIntervals (targetRoute (sampleRenderer groupsListingDeparture)) = groupsListingDeparture
   \<and> intervalData (sampleRenderer groupsListingDeparture) (intervalKey (si_ID (groupsListingDeparture ! 0)))
       \<noteq> None
   \<and> the (intervalData (sampleRenderer groupsListingDeparture)
            (intervalKey (si_ID (groupsListingDeparture ! 0)))) ''DEP'' = Some 7"
proof -
  have "StationIntervals (targetRoute (sampleRenderer groupsListingDeparture)) = groupsListingDeparture"
    by (simp add: NewTimetableRenderer_def sampleRenderer_def sampleResponse_def Let_def)
  moreover have "intervalData (sampleRenderer groupsListingDeparture)
       (intervalKey (si_ID (groupsListingDeparture ! 0))) \<noteq> None"
    by (simp add: sample_defs)
  moreover have "the (intervalData (sampleRenderer groupsListingDeparture)
            (intervalKey (si_ID (groupsListingDeparture ! 0)))) ''DEP'' = Some 7"
    by (simp add: sample_defs)
  ultimately show ?thesis using sample_built by simp
qed

section \<open>Properties of the text renderer\<close>

text \<open>
  Claim C6, as the code has it, for a model the builder returned. Without any interval
  group the cell is \<open>err\<close>. When the journey's group identifier is absent from the
  offset tables, the table stored under the first group's identifier is used: these are
  the first group's own offsets provided no later group repeats its identifier. With a
  table at hand, the cell is \<open>---\<close> when the stop is absent from it and the computed
  arrival time otherwise.
\<close>

theorem cell_lookup_fallback:
  assumes "NewTimetableRenderer resp = Inr tr" and "Timetable resp = Some tt"
  shows "(StationIntervals (targetRoute tr) = [] \<longrightarrow> cellText tr s j = ''err'')
       \<and> (\<forall>g rest. StationIntervals (targetRoute tr) = g # rest
              \<and> intervalData tr (IntervalID j) = None
              \<and> (\<forall>g'\<in>set rest. intervalKey (si_ID g') \<noteq> intervalKey (si_ID g))
            \<longrightarrow> cellText tr s j
                  = (case offsetTable (DepartureStopID tt) g (stop_id s) of
                       None \<Rightarrow> ''---''
                     | Some off \<Rightarrow> calculateArrivalTime (Hour j) (Minute j) off))
       \<and> (\<forall>offsets. intervalData tr (IntervalID j) = Some offsets
            \<longrightarrow> cellText tr s j
                  = (case offsets (stop_id s) of
                       None \<Rightarrow> ''---''
                     | Some off \<Rightarrow> calculateArrivalTime (Hour j) (Minute j) off))"
proof (intro conjI allI impI)
  let ?dep = "DepartureStopID tt"
  have d: "intervalData tr
             = map_of (rev (map (\<lambda>si. (intervalKey (si_ID si), offsetTable ?dep si))
                              (StationIntervals (targetRoute tr))))"
    using assms by (rule built_intervalData)
  {
    assume "StationIntervals (targetRoute tr) = []"
    with d show "cellText tr s j = ''err''"
      by (simp add: cellText_def lookupOffsets_def)
  next
    fix g rest
    assume h: "StationIntervals (targetRoute tr) = g # rest
              \<and> intervalData tr (IntervalID j) = None
              \<and> (\<forall>g'\<in>set rest. intervalKey (si_ID g') \<noteq> intervalKey (si_ID g))"
    let ?kvs = "map (\<lambda>si. (intervalKey (si_ID si), offsetTable ?dep si)) rest"
    have "\<forall>p\<in>set ?kvs. fst p \<noteq> intervalKey (si_ID g)"
      using h by auto
    then have "map_of (rev ((intervalKey (si_ID g), offsetTable ?dep g) # ?kvs)) (intervalKey (si_ID g))
                 = Some (offsetTable ?dep g)"
      by (rule map_of_rev_first)
    with d h have "intervalData tr (intervalKey (si_ID g)) = Some (offsetTable ?dep g)"
      by simp
    with h show "cellText tr s j
                  = (case offsetTable ?dep g (stop_id s) of
                       None \<Rightarrow> ''---''
                     | Some off \<Rightarrow> calculateArrivalTime (Hour j) (Minute j) off)"
      by (simp add: cellText_def lookupOffsets_def split: option.splits)
  next
    fix offsets
    assume "intervalData tr (IntervalID j) = Some offsets"
    then show "cellText tr s j
                  = (case offsets (stop_id s) of
                       None \<Rightarrow> ''---''
                     | Some off \<Rightarrow> calculateArrivalTime (Hour j) (Minute j) off)"
      by (simp add: cellText_def lookupOffsets_def split: option.splits)
  }
qed

theorem cell_lookup_fallback_witness:
  "NewTimetableRenderer (sampleResponse sampleGroups sampleJourneys) = Inr (sampleRenderer sampleGroups)
   \<and> StationIntervals (targetRoute (sampleRenderer sampleGroups)) = sampleGroups ! 0 # [sampleGroups ! 1]
   \<and> intervalData (sampleRenderer sampleGroups) (IntervalID (sampleJourneys ! 2)) = None
   \<and> intervalKey (si_ID (sampleGroups ! 1)) \<noteq> intervalKey (si_ID (sampleGroups ! 0))
   \<and> cellText (sampleRenderer sampleGroups) \<lparr>stop_id = ''B'', stop_name = ''Gunnersbury [S]''\<rparr>
        (sampleJourneys ! 2) = ''11:12''
   \<and> cellText (sampleRenderer sampleGroups) \<lparr>stop_id = ''C'', stop_name = []\<rparr>
        (sampleJourneys ! 2) = ''---''"
proof -
  let ?resp = "sampleResponse sampleGroups sampleJourneys"
  let ?tr = "sampleRenderer sampleGroups"
  let ?j = "sampleJourneys ! 2"
  have a: "NewTimetableRenderer ?resp = Inr ?tr"
    by (rule sample_built)
  have b: "Timetable ?resp = Some (the (Timetable ?resp))"
    by (rule sample_timetable)
  have c: "DepartureStopID (the (Timetable ?resp)) = ''DEP''"
    by (simp add: sampleResponse_def)
  have g: "StationIntervals (targetRoute ?tr) = sampleGroups ! 0 # [sampleGroups ! 1]"
    by (simp add: sample_defs)
  have n: "intervalData ?tr (IntervalID ?j) = None"
    by (simp add: sample_defs)
  have k: "intervalKey (si_ID (sampleGroups ! 1)) \<noteq> intervalKey (si_ID (sampleGroups ! 0))"
    by (simp add: sample_defs)
  have hm: "Hour ?j = ''11''" "Minute ?j = ''00''"
    by (simp_all add: sampleJourneys_def)
  have t: "calculateArrivalTime ''11'' ''00'' 12 = ''11:12''"
    by code_simp
  have oB: "offsetTable ''DEP'' (sampleGroups ! 0) ''B'' = Some 12"
    by (simp add: offsetTable_def sampleGroups_def map_add_def)
  have oC: "offsetTable ''DEP'' (sampleGroups ! 0) ''C'' = None"
    by (simp add: offsetTable_def sampleGroups_def map_add_def)
  have "cellText ?tr \<lparr>stop_id = ''B'', stop_name = ''Gunnersbury [S]''\<rparr> ?j = ''11:12''"
    using cell_lookup_fallback[OF a b, of "\<lparr>stop_id = ''B'', stop_name = ''Gunnersbury [S]''\<rparr>" ?j]
      g n k unfolding c by (simp add: oB hm t)
  moreover have "cellText ?tr \<lparr>stop_id = ''C'', stop_name = []\<rparr> ?j = ''---''"
    using cell_lookup_fallback[OF a b, of "\<lparr>stop_id = ''C'', stop_name = []\<rparr>" ?j]
      g n k unfolding c by (simp add: oC)
  ultimately show ?thesis using a g n k by simp
qed

text \<open>
  Claim C6 as stated names the first group's offsets. The fallback reads the table stored
  under the first group's identifier, and a later group with the same identifier has
  replaced it: with two groups both identified as 1, offsets 5 and 8, a journey of an
  unknown group is shown with offset 8.
\<close>

theorem cell_fallback_repeated_identifier_counterexample:
  "NewTimetableRenderer (sampleResponse groupsSameID sampleJourneys) = Inr (sampleRenderer groupsSameID)
   \<and> StationIntervals (targetRoute (sampleRenderer groupsSameID)) = groupsSameID
   \<and> intervalData (sampleRenderer groupsSameID) (IntervalID (sampleJourneys ! 2)) = None
   \<and> cellText (sampleRenderer groupsSameID) \<lparr>stop_id = ''A'', stop_name = ''Kew Gardens''\<rparr>
        (sampleJourneys ! 2) = ''11:08''
   \<and> offsetTable ''DEP'' (groupsSameID ! 0) ''A'' = Some 5
   \<and> calculateArrivalTime (Hour (sampleJourneys ! 2)) (Minute (sampleJourneys ! 2)) 5 = ''11:05''"
proof -
  let ?tr = "sampleRenderer groupsSameID"
  let ?j = "sampleJourneys ! 2"
  have g: "StationIntervals (targetRoute ?tr) = groupsSameID"
    by (simp add: NewTimetableRenderer_def sampleRenderer_def sampleResponse_def Let_def)
  have n: "intervalData ?tr (IntervalID ?j) = None"
    by (simp add: sample_defs)
  have hm: "Hour ?j = ''11''" "Minute ?j = ''00''"
    by (simp_all add: sampleJourneys_def)
  have t8: "calculateArrivalTime ''11'' ''00'' 8 = ''11:08''"
    by code_simp
  have t5: "calculateArrivalTime ''11'' ''00'' 5 = ''11:05''"
    by code_simp
  have f: "lookupOffsets ?tr ?j = Some (offsetTable ''DEP'' (groupsSameID ! 1))"
    by (simp add: lookupOffsets_def offsetTable_def sample_defs)
  have o8: "offsetTable ''DEP'' (groupsSameID ! Suc 0) ''A'' = Some 8"
    by (simp add: offsetTable_def groupsSameID_def map_add_def)
  have o5: "offsetTable ''DEP'' (groupsSameID ! 0) ''A'' = Some 5"
    by (simp add: offsetTable_def groupsSameID_def map_add_def)
  have "cellText ?tr \<lparr>stop_id = ''A'', stop_name = ''Kew Gardens''\<rparr> ?j = ''11:08''"
    by (simp add: cellText_def f o8 hm t8)
  with g n o5 t5 hm sample_built show ?thesis by simp
qed

lemma truncateName_long:
  assumes "3 \<le> w" "w < int (length name)"
  shows "truncateName w name = Inr (take (nat (w - 3)) name @ ''...'')"
    and "length (take (nat (w - 3)) name @ ''...'') = nat w"
  using assms by (auto simp: truncateName_def)

lemma truncateName_short: "int (length name) \<le> w \<Longrightarrow> truncateName w name = Inr name"
  by (simp add: truncateName_def)

lemma truncateName_total: "3 \<le> w \<Longrightarrow> \<exists>text. truncateName w name = Inr text"
  by (simp add: truncateName_def)

lemma truncateName_panics:
  "w < 3 \<Longrightarrow> w < int (length name) \<Longrightarrow> truncateName w name = Inl SliceBoundsOutOfRange"
  by (simp add: truncateName_def)

lemma runeCount_ascii: "\<forall>b\<in>set bs. b < 128 \<Longrightarrow> runeCount bs = length bs"
  by (induction bs) (simp_all add: runeSize_def)

lemma Fprintf_left_exact:
  assumes "\<forall>c\<in>set s. byte c < 128" "length s = nat w" "0 \<le> w" "w \<le> 1000000"
  shows "Fprintf_left w s = s"
proof -
  have "RuneCountInString s = length s"
    unfolding RuneCountInString_def using assms(1) by (simp add: runeCount_ascii)
  with assms show ?thesis by (simp add: Fprintf_left_def)
qed

lemma renderRows_panics:
  "\<exists>s\<in>set ss. \<exists>p. truncateName w (stop_name s) = Inl p \<Longrightarrow> \<exists>p. renderRows tr w js ss = Inl p"
proof (induction ss)
  case Nil
  then show ?case by simp
next
  case (Cons s ss)
  show ?case
  proof (cases "truncateName w (stop_name s)")
    case (Inl p)
    then show ?thesis by (simp add: renderRow_def)
  next
    case (Inr nm)
    with Cons.prems have "\<exists>s\<in>set ss. \<exists>p. truncateName w (stop_name s) = Inl p" by auto
    from Cons.IH[OF this] obtain p where "renderRows tr w js ss = Inl p" by blast
    with Inr show ?thesis by (simp add: renderRow_def)
  qed
qed

lemma RenderAsText_panics:
  assumes "w < 3" "\<exists>s\<in>set (stops tr). w < int (length (stop_name s))"
  shows "\<exists>p. RenderAsText tr maxJ w = Inl p"
proof -
  from assms have "\<exists>s\<in>set (stops tr). \<exists>p. truncateName w (stop_name s) = Inl p"
    using truncateName_panics by blast
  then obtain p where
    "renderRows tr w (selectJourneys maxJ (KnownJourneys (schedule tr))) (stops tr) = Inl p"
    using renderRows_panics by blast
  then show ?thesis
    by (auto simp: RenderAsText_def Let_def split: option.splits sum.splits)
qed

lemma selectJourneys_idem: "selectJourneys maxJ (selectJourneys maxJ js) = selectJourneys maxJ js"
  by (auto simp: selectJourneys_def)




text \<open>
  Claim C8, as the code has it. With a station column at least 3 wide, a station name
  longer than the column is shown as its first \<open>stationColWidth - 3\<close> bytes followed by
  three dots, \<open>stationColWidth\<close> bytes in all, and the row prints exactly that (no
  padding) when the name is ASCII and the width within the limit of \<open>fmt\<close>. A name no
  longer than the column is printed unmodified, padded to the column.
\<close>

theorem station_name_truncation:
  "(3 \<le> w \<and> w < int (length (stop_name s)) \<longrightarrow>
      renderRow tr w js s
        = Inr (Fprintf_left w (take (nat (w - 3)) (stop_name s) @ ''...'')
               @ concat (map (cell tr s) js) @ newline)
      \<and> length (take (nat (w - 3)) (stop_name s) @ ''...'') = nat w
      \<and> (w \<le> 1000000 \<and> (\<forall>c\<in>set (stop_name s). byte c < 128) \<longrightarrow>
           Fprintf_left w (take (nat (w - 3)) (stop_name s) @ ''...'')
             = take (nat (w - 3)) (stop_name s) @ ''...''))
   \<and> (int (length (stop_name s)) \<le> w \<longrightarrow>
        renderRow tr w js s
          = Inr (Fprintf_left w (stop_name s) @ concat (map (cell tr s) js) @ newline))"
proof (intro conjI impI)
  assume h: "3 \<le> w \<and> w < int (length (stop_name s))"
  then show "renderRow tr w js s
        = Inr (Fprintf_left w (take (nat (w - 3)) (stop_name s) @ ''...'')
               @ concat (map (cell tr s) js) @ newline)"
    by (simp add: renderRow_def truncateName_long)
  from h show l: "length (take (nat (w - 3)) (stop_name s) @ ''...'') = nat w"
    by auto
  assume a: "w \<le> 1000000 \<and> (\<forall>c\<in>set (stop_name s). byte c < 128)"
  have "\<forall>c\<in>set (take (nat (w - 3)) (stop_name s) @ ''...''). byte c < 128"
    using a by (auto simp: byte_def dest: in_set_takeD)
  then show "Fprintf_left w (take (nat (w - 3)) (stop_name s) @ ''...'')
             = take (nat (w - 3)) (stop_name s) @ ''...''"
    using l h a by (intro Fprintf_left_exact) auto
next
  assume "int (length (stop_name s)) \<le> w"
  then show "renderRow tr w js s
          = Inr (Fprintf_left w (stop_name s) @ concat (map (cell tr s) js) @ newline)"
    by (simp add: renderRow_def truncateName_short)
qed

theorem station_name_truncation_witness:
  "(3::int) \<le> 10 \<and> 10 < int (length (stop_name stopKew))
   \<and> renderRow (sampleRenderer sampleGroups) 10 [] stopKew = Inr (''Kew Gar...'' @ newline)
   \<and> renderRow (sampleRenderer sampleGroups) 11 [] stopKew = Inr (''Kew Gardens'' @ newline)"
proof -
  have a: "(3::int) \<le> 10 \<and> 10 < int (length (stop_name stopKew))"
    by (simp add: stopKew_def)
  have b: "(10::int) \<le> 1000000 \<and> (\<forall>c\<in>set (stop_name stopKew). byte c < 128)"
    by (simp add: stopKew_def byte_def)
  have c: "take (nat (10 - 3)) (stop_name stopKew) @ ''...'' = ''Kew Gar...''"
    by (simp add: stopKew_def)
  have d: "int (length (stop_name stopKew)) \<le> 11"
    by (simp add: stopKew_def)
  have e: "Fprintf_left 11 (stop_name stopKew) = ''Kew Gardens''"
    by (simp add: stopKew_def Fprintf_left_def RuneCountInString_def runeSize_def byte_def)
  note t = station_name_truncation[of _ stopKew "sampleRenderer sampleGroups" "[]"]
  have "renderRow (sampleRenderer sampleGroups) 10 [] stopKew = Inr (''Kew Gar...'' @ newline)"
    using t[of 10] a b unfolding c by simp
  moreover have "renderRow (sampleRenderer sampleGroups) 11 [] stopKew = Inr (''Kew Gardens'' @ newline)"
    using t[of 11] d unfolding e by simp
  ultimately show ?thesis using a b by simp
qed

text \<open>
  Claim C8 as stated covers every column width. With a width below 3 a longer name is not
  shown at all: the slice bound is negative and the row panics.
\<close>

theorem station_name_truncation_narrow_counterexample:
  "2 < int (length (stop_name stopKew))
   \<and> renderRow (sampleRenderer sampleGroups) 2 [] stopKew = Inl SliceBoundsOutOfRange"
  by (simp add: stopKew_def renderRow_def truncateName_def)




text \<open>
  Claim C10. The renderer is partial: on some model with a stop name longer than a column
  width below 3 it panics at the truncation slice; whenever the width is below 3 and some
  stop name is longer than it, the renderer panics; and with a width of at least 3 the
  truncation is always defined.
\<close>

theorem RenderAsText_partial:
  "(\<exists>(tr :: TimetableRenderer) maxJourneys w. (\<exists>s\<in>set (stops tr). w < int (length (stop_name s))) \<and> w < 3
       \<and> RenderAsText tr maxJourneys w = Inl SliceBoundsOutOfRange)
   \<and> (\<forall>(tr :: TimetableRenderer) maxJourneys w. w < 3 \<and> (\<exists>s\<in>set (stops tr). w < int (length (stop_name s)))
         \<longrightarrow> (\<exists>p. RenderAsText tr maxJourneys w = Inl p))
   \<and> (\<forall>w name. 3 \<le> w \<longrightarrow> (\<exists>text. truncateName w name = Inr text))"
proof (intro conjI allI impI)
  let ?tr = "sampleRenderer sampleGroups"
  have "\<exists>s\<in>set (stops ?tr). 2 < int (length (stop_name s))"
    by (simp add: sample_defs nameOf_def)
  moreover have "RenderAsText ?tr 0 2 = Inl SliceBoundsOutOfRange"
    by (simp add: RenderAsText_def selectJourneys_def Repeat_def wrap64_def renderRow_def
        truncateName_def nameOf_def sample_defs)
  ultimately show "\<exists>(tr :: TimetableRenderer) maxJourneys w. (\<exists>s\<in>set (stops tr). w < int (length (stop_name s))) \<and> w < 3
       \<and> RenderAsText tr maxJourneys w = Inl SliceBoundsOutOfRange"
    by (intro exI[of _ ?tr] exI[of _ 0] exI[of _ 2]) simp
next
  fix tr :: TimetableRenderer and maxJourneys w
  assume "w < 3 \<and> (\<exists>s\<in>set (stops tr). w < int (length (stop_name s)))"
  then show "\<exists>p. RenderAsText tr maxJourneys w = Inl p"
    using RenderAsText_panics by blast
next
  fix w :: int and name
  assume "3 \<le> w"
  then show "\<exists>text. truncateName w name = Inr text"
    by (rule truncateName_total)
qed

theorem RenderAsText_partial_witness:
  "(1::int) < 3 \<and> (\<exists>s\<in>set (stops (sampleRenderer groupsSameID)). 1 < int (length (stop_name s)))
   \<and> (\<exists>p. RenderAsText (sampleRenderer groupsSameID) 5 1 = Inl p)
   \<and> (3::int) \<le> 3 \<and> (\<exists>text. truncateName 3 ''Richmond'' = Inr text)"
proof -
  have a: "(1::int) < 3 \<and> (\<exists>s\<in>set (stops (sampleRenderer groupsSameID)). 1 < int (length (stop_name s)))"
    by (simp add: sample_defs nameOf_def)
  have b: "(3::int) \<le> 3" by simp
  from RenderAsText_partial a b show ?thesis by blast
qed

section \<open>Properties of the resolver\<close>

lemma getSpecificIDsFromChildren_filter:
  "getSpecificIDsFromChildren places = filter (\<lambda>i. HasPrefix i ''940G'') (descendantIDs places)"
  by (induction places rule: getSpecificIDsFromChildren.induct) simp_all

lemma naptan_prefix_not_hub: "HasPrefix i ''940G'' \<Longrightarrow> \<not> HasPrefix i ''HUB''"
  by (cases i) (auto simp: HasPrefix_def)

lemma collectNaptanIDs_no_hub:
  "x \<in> set (collectNaptanIDs stationName payload) \<Longrightarrow> \<not> HasPrefix x ''HUB''"
proof (induction payload)
  case Nil
  then show ?case by simp
next
  case (Cons sp rest)
  then show ?case
    by (auto simp: getSpecificIDsFromChildren_filter naptan_prefix_not_hub split: if_splits)
qed

lemma padFirstBatch_singleton:
  "length ids = 1 \<Longrightarrow>
     \<exists>d. padFirstBatch ids = ids @ [d] \<and> d \<noteq> ids ! 0 \<and> (d = ''HUBAMR'' \<or> d = ''HUBRMD'')"
  by (simp add: padFirstBatch_def)

lemma padFirstBatch_length: "ids \<noteq> [] \<Longrightarrow> 2 \<le> length (padFirstBatch ids)"
  by (cases ids) (auto simp: padFirstBatch_def Suc_le_eq)

lemma padSecondBatch_length: "ids \<noteq> [] \<Longrightarrow> 2 \<le> length (padSecondBatch ids)"
  by (cases ids) (auto simp: padSecondBatch_def Suc_le_eq)

lemma padSecondBatch_singleton:
  assumes "length (collectNaptanIDs stationName payload) = 1"
  shows "padSecondBatch (collectNaptanIDs stationName payload)
           = collectNaptanIDs stationName payload @ [''HUBAMR'']
         \<and> collectNaptanIDs stationName payload ! 0 \<noteq> ''HUBAMR''"
proof -
  from assms have "collectNaptanIDs stationName payload ! 0 \<in> set (collectNaptanIDs stationName payload)"
    by simp
  then have "\<not> HasPrefix (collectNaptanIDs stationName payload ! 0) ''HUB''"
    by (rule collectNaptanIDs_no_hub)
  then have "collectNaptanIDs stationName payload ! 0 \<noteq> ''HUBAMR''"
    by (auto simp: HasPrefix_def)
  with assms show ?thesis by (simp add: padSecondBatch_def)
qed

lemma collectNaptanIDs_without_HUBAMR:
  "stationName \<noteq> ''Amersham'' \<Longrightarrow>
     collectNaptanIDs stationName (filter (\<lambda>sp. sp_ID sp \<noteq> ''HUBAMR'') payload)
       = collectNaptanIDs stationName payload"
  by (induction payload) auto

lemma emitPairs_without_HUBAMR:
  "stationName \<noteq> ''Amersham'' \<Longrightarrow>
     emitPairs stationName (filter (\<lambda>sp. sp_ID sp \<noteq> ''HUBAMR'') payload)
       = emitPairs stationName payload"
  by (induction payload) (auto simp: HasPrefix_def)

lemma emitPairs_origin:
  "p \<in> set (emitPairs stationName payload) \<Longrightarrow>
     \<exists>sp\<in>set payload. \<exists>l\<in>set (sp_Lines sp).
        p = \<lparr>LineID = line_ID l, StopPointID = sp_NaptanID sp\<rparr>
        \<and> (\<not> HasPrefix (sp_ID sp) ''HUB'' \<or> (stationName = ''Amersham'' \<and> sp_ID sp = ''HUBAMR''))"
proof (induction payload)
  case Nil
  then show ?case by simp
next
  case (Cons sp rest)
  then show ?case by (auto split: if_splits)
qed

lemma getLinesAndStops_without_HUBAMR:
  assumes "stationName \<noteq> ''Amersham''"
  shows "getLinesAndStops (withoutHUBAMR cl) c stationName mode
           = getLinesAndStops cl c stationName mode"
proof -
  have s: "StopPointSearch (withoutHUBAMR cl) = StopPointSearch cl"
    by (simp add: withoutHUBAMR_def)
  have g: "StopPointGet (withoutHUBAMR cl) c' ids
             = (case StopPointGet cl c' ids of
                  (Inl err, c'') \<Rightarrow> (Inl err, c'')
                | (Inr payload, c'') \<Rightarrow> (Inr (filter (\<lambda>sp. sp_ID sp \<noteq> ''HUBAMR'') payload), c''))"
    for c' ids
    by (simp add: withoutHUBAMR_def)
  show ?thesis
    unfolding getLinesAndStops_def s g
    using assms
    by (auto simp: Let_def collectNaptanIDs_without_HUBAMR emitPairs_without_HUBAMR
             split: prod.splits sum.splits)
qed

lemma getLinesAndStops_requests:
  "\<forall>r\<in>set (snd (snd (getLinesAndStops (recording cl) (c, []) stationName mode))). 2 \<le> length r"
proof -
  have s: "StopPointSearch (recording cl) (c', log) q modes
             = (case StopPointSearch cl c' q modes of (r, c'') \<Rightarrow> (r, (c'', log)))"
    for c' log q modes
    by (simp add: recording_def)
  have g: "StopPointGet (recording cl) (c', log) ids
             = (case StopPointGet cl c' ids of (r, c'') \<Rightarrow> (r, (c'', log @ [ids])))"
    for c' log ids
    by (simp add: recording_def)
  have p1: "matches \<noteq> [] \<Longrightarrow> 2 \<le> length (padFirstBatch (map match_ID matches))" for matches
    by (simp add: padFirstBatch_length)
  show ?thesis
    unfolding getLinesAndStops_def s
    by (auto simp: Let_def g p1 padSecondBatch_length split: prod.splits sum.splits)
qed

lemma getLinesAndStops_origin:
  assumes "getLinesAndStops cl c stationName mode = (Inr pairs, c')" "p \<in> set pairs"
  shows "\<exists>c2 ids payload. StopPointGet cl c2 ids = (Inr payload, c')
           \<and> (\<exists>sp\<in>set payload. \<exists>l\<in>set (sp_Lines sp).
                 p = \<lparr>LineID = line_ID l, StopPointID = sp_NaptanID sp\<rparr>
                 \<and> (\<not> HasPrefix (sp_ID sp) ''HUB''
                      \<or> (stationName = ''Amersham'' \<and> sp_ID sp = ''HUBAMR'')))"
proof -
  from assms obtain c2 ids payload where
    "StopPointGet cl c2 ids = (Inr payload, c')" "pairs = emitPairs stationName payload"
    by (auto simp: getLinesAndStops_def Let_def split: prod.splits sum.splits if_splits)
  with assms(2) emitPairs_origin show ?thesis by blast
qed

lemmas resolver_defs =
  getLinesAndStops_def tableClient_def sampleTable_def spRichmond_def spAmersham_def hubAmersham_def
  hubRichmond_def padFirstBatch_def padSecondBatch_def HasPrefix_def Let_def recording_def
  withoutHUBAMR_def

text \<open>
  Claim C4, as the code has it. A one-element identifier list is extended, before the
  first batch call, by \<open>HUBAMR\<close>, or by \<open>HUBRMD\<close> when the one identifier is
  \<open>HUBAMR\<close> itself, and before the second batch call by \<open>HUBAMR\<close>, which differs from
  the one identifier collected; so every batch call carries at least two identifiers. When
  the station searched for is not \<open>Amersham\<close>, the stop points identified as
  \<open>HUBAMR\<close> in the answers have no effect on the result.
\<close>

theorem singleton_workaround:
  "(length ids = 1 \<longrightarrow>
      (\<exists>d. padFirstBatch ids = ids @ [d] \<and> d \<noteq> ids ! 0 \<and> (d = ''HUBAMR'' \<or> d = ''HUBRMD'')))
   \<and> (length (collectNaptanIDs stationName payload) = 1 \<longrightarrow>
        padSecondBatch (collectNaptanIDs stationName payload)
          = collectNaptanIDs stationName payload @ [''HUBAMR'']
        \<and> collectNaptanIDs stationName payload ! 0 \<noteq> ''HUBAMR'')
   \<and> (\<forall>r\<in>set (snd (snd (getLinesAndStops (recording cl) (c, []) stationName mode))).
         2 \<le> length r)
   \<and> (stationName \<noteq> ''Amersham'' \<longrightarrow>
        getLinesAndStops (withoutHUBAMR cl) c stationName mode
          = getLinesAndStops cl c stationName mode)"
proof (intro conjI impI)
  assume "length ids = 1"
  then show "\<exists>d. padFirstBatch ids = ids @ [d] \<and> d \<noteq> ids ! 0 \<and> (d = ''HUBAMR'' \<or> d = ''HUBRMD'')"
    by (rule padFirstBatch_singleton)
next
  assume l: "length (collectNaptanIDs stationName payload) = 1"
  from padSecondBatch_singleton[OF l]
  show "padSecondBatch (collectNaptanIDs stationName payload)
          = collectNaptanIDs stationName payload @ [''HUBAMR'']"
    by simp
  from padSecondBatch_singleton[OF l]
  show "collectNaptanIDs stationName payload ! 0 \<noteq> ''HUBAMR''"
    by simp
next
  show "\<forall>r\<in>set (snd (snd (getLinesAndStops (recording cl) (c, []) stationName mode))).
         2 \<le> length r"
    by (rule getLinesAndStops_requests)
next
  assume "stationName \<noteq> ''Amersham''"
  then show "getLinesAndStops (withoutHUBAMR cl) c stationName mode
          = getLinesAndStops cl c stationName mode"
    by (rule getLinesAndStops_without_HUBAMR)
qed

theorem singleton_workaround_witness:
  "length [''940GZZLURMD''] = 1
   \<and> padFirstBatch [''940GZZLURMD''] = [''940GZZLURMD'', ''HUBAMR'']
   \<and> collectNaptanIDs ''Richmond'' [spRichmond, hubAmersham [Place ''940GZZLUAMS'' []]]
       = [''940GZZLURMD'']
   \<and> padSecondBatch (collectNaptanIDs ''Richmond'' [spRichmond, hubAmersham [Place ''940GZZLUAMS'' []]])
       = [''940GZZLURMD'', ''HUBAMR'']
   \<and> snd (snd (getLinesAndStops
                 (recording (tableClient [''940GZZLURMD''] (sampleTable [Place ''940GZZLUAMS'' []])))
                 ((), []) ''Richmond'' ''tube''))
       = [[''940GZZLURMD'', ''HUBAMR''], [''940GZZLURMD'', ''HUBAMR'']]
   \<and> ''Richmond'' \<noteq> ''Amersham''
   \<and> getLinesAndStops (withoutHUBAMR (tableClient [''940GZZLURMD''] (sampleTable [Place ''940GZZLUAMS'' []])))
         () ''Richmond'' ''tube''
       = (Inr [\<lparr>LineID = ''district'', StopPointID = ''940GZZLURMD''\<rparr>], ())"
proof -
  let ?cl = "tableClient [''940GZZLURMD''] (sampleTable [Place ''940GZZLUAMS'' []])"
  let ?payload = "[spRichmond, hubAmersham [Place ''940GZZLUAMS'' []]]"
  have a: "length [''940GZZLURMD''] = 1" by simp
  have b: "collectNaptanIDs ''Richmond'' ?payload = [''940GZZLURMD'']"
    by (simp add: spRichmond_def hubAmersham_def HasPrefix_def)
  have c: "''Richmond'' \<noteq> ''Amersham''" by simp
  have d: "getLinesAndStops ?cl () ''Richmond'' ''tube''
             = (Inr [\<lparr>LineID = ''district'', StopPointID = ''940GZZLURMD''\<rparr>], ())"
    by (simp add: resolver_defs)
  have e: "snd (snd (getLinesAndStops (recording ?cl) ((), []) ''Richmond'' ''tube''))
             = [[''940GZZLURMD'', ''HUBAMR''], [''940GZZLURMD'', ''HUBAMR'']]"
    by (simp add: resolver_defs)
  have p1: "padFirstBatch [''940GZZLURMD''] = [''940GZZLURMD'', ''HUBAMR'']"
    by (simp add: padFirstBatch_def)
  have p2: "padSecondBatch (collectNaptanIDs ''Richmond'' ?payload) = [''940GZZLURMD'', ''HUBAMR'']"
    unfolding b by (simp add: padSecondBatch_def)
  note t = singleton_workaround[of "[''940GZZLURMD'']" "''Richmond''" ?payload ?cl "()" "''tube''"]
  have w: "getLinesAndStops (withoutHUBAMR ?cl) () ''Richmond'' ''tube''
             = getLinesAndStops ?cl () ''Richmond'' ''tube''"
    by (rule t[THEN conjunct2, THEN conjunct2, THEN conjunct2, rule_format, OF c])
  show ?thesis
    unfolding w d e p1 p2 b by (simp add: padSecondBatch_def)
qed

text \<open>
  Claim C4 as stated excludes the padding's results for every input. The comparison with
  \<open>HUBAMR\<close> is switched off when the station searched for is \<open>Amersham\<close>: the
  padding is then answered like a requested stop point and its lines are emitted.
\<close>

theorem singleton_workaround_amersham_counterexample:
  "getLinesAndStops (recording (tableClient [''940GZZLUAMS''] (sampleTable [Place ''910GAMERSHM'' []])))
       ((), []) ''Amersham'' ''tube''
     = (Inr [\<lparr>LineID = ''metropolitan'', StopPointID = ''940GZZLUAMS''\<rparr>,
             \<lparr>LineID = ''chiltern-railways'', StopPointID = ''HUBAMR''\<rparr>,
             \<lparr>LineID = ''metropolitan'', StopPointID = ''HUBAMR''\<rparr>],
        (), [[''940GZZLUAMS'', ''HUBAMR''], [''940GZZLUAMS'', ''HUBAMR'']])
   \<and> fst (getLinesAndStops (withoutHUBAMR (tableClient [''940GZZLUAMS''] (sampleTable [Place ''910GAMERSHM'' []])))
       () ''Amersham'' ''tube'')
     = Inr [\<lparr>LineID = ''metropolitan'', StopPointID = ''940GZZLUAMS''\<rparr>]"
  by (simp add: resolver_defs)

text \<open>
  Claim C5, as the code has it. Every emitted pair carries a line and the Naptan
  identifier of a stop point of the second batch answer whose identifier does not start
  with \<open>HUB\<close>, or which is \<open>HUBAMR\<close> when the station searched for is
  \<open>Amersham\<close>. The child walk collects exactly the identifiers below the given places
  that start with \<open>940G\<close>, parents before children, whatever the nesting; none of them
  starts with \<open>HUB\<close>.
\<close>

theorem resolver_platform_identifiers:
  "(\<forall>pairs c'. getLinesAndStops cl c stationName mode = (Inr pairs, c') \<longrightarrow>
      (\<forall>p\<in>set pairs. \<exists>c2 ids payload. StopPointGet cl c2 ids = (Inr payload, c')
           \<and> (\<exists>sp\<in>set payload. \<exists>l\<in>set (sp_Lines sp).
                 p = \<lparr>LineID = line_ID l, StopPointID = sp_NaptanID sp\<rparr>
                 \<and> (\<not> HasPrefix (sp_ID sp) ''HUB''
                      \<or> (stationName = ''Amersham'' \<and> sp_ID sp = ''HUBAMR'')))))
   \<and> getSpecificIDsFromChildren places
       = filter (\<lambda>i. HasPrefix i ''940G'') (descendantIDs places)
   \<and> (\<forall>i\<in>set (getSpecificIDsFromChildren places). \<not> HasPrefix i ''HUB'')"
proof (intro conjI allI impI ballI)
  fix pairs c' p
  assume "getLinesAndStops cl c stationName mode = (Inr pairs, c')" "p \<in> set pairs"
  then show "\<exists>c2 ids payload. StopPointGet cl c2 ids = (Inr payload, c')
           \<and> (\<exists>sp\<in>set payload. \<exists>l\<in>set (sp_Lines sp).
                 p = \<lparr>LineID = line_ID l, StopPointID = sp_NaptanID sp\<rparr>
                 \<and> (\<not> HasPrefix (sp_ID sp) ''HUB''
                      \<or> (stationName = ''Amersham'' \<and> sp_ID sp = ''HUBAMR'')))"
    by (rule getLinesAndStops_origin)
next
  show "getSpecificIDsFromChildren places
       = filter (\<lambda>i. HasPrefix i ''940G'') (descendantIDs places)"
    by (rule getSpecificIDsFromChildren_filter)
next
  fix i
  assume "i \<in> set (getSpecificIDsFromChildren places)"
  then show "\<not> HasPrefix i ''HUB''"
    by (simp add: getSpecificIDsFromChildren_filter naptan_prefix_not_hub)
qed

theorem resolver_platform_identifiers_witness:
  "getLinesAndStops (tableClient [''940GZZLURMD''] (sampleTable [Place ''940GZZLUAMS'' []]))
       () ''Richmond'' ''tube''
     = (Inr [\<lparr>LineID = ''district'', StopPointID = ''940GZZLURMD''\<rparr>], ())
   \<and> (\<exists>c2 ids payload.
         StopPointGet (tableClient [''940GZZLURMD''] (sampleTable [Place ''940GZZLUAMS'' []])) c2 ids
           = (Inr payload, ())
         \<and> (\<exists>sp\<in>set payload. \<exists>l\<in>set (sp_Lines sp).
               \<lparr>LineID = ''district'', StopPointID = ''940GZZLURMD''\<rparr>
                 = \<lparr>LineID = line_ID l, StopPointID = sp_NaptanID sp\<rparr>
               \<and> (\<not> HasPrefix (sp_ID sp) ''HUB''
                    \<or> (''Richmond'' = ''Amersham'' \<and> sp_ID sp = ''HUBAMR''))))
   \<and> descendantIDs samplePlaces
       = [''940GZZLURMD'', ''HUBXYZ'', ''940GZZLUKWG'', ''HUBNEST'', ''940GZZLUGBY'', ''910GKEWGRDN'']
   \<and> getSpecificIDsFromChildren samplePlaces = [''940GZZLURMD'', ''940GZZLUKWG'', ''940GZZLUGBY'']"
proof -
  let ?cl = "tableClient [''940GZZLURMD''] (sampleTable [Place ''940GZZLUAMS'' []])"
  have d: "getLinesAndStops ?cl () ''Richmond'' ''tube''
             = (Inr [\<lparr>LineID = ''district'', StopPointID = ''940GZZLURMD''\<rparr>], ())"
    by (simp add: resolver_defs)
  have e: "descendantIDs samplePlaces
       = [''940GZZLURMD'', ''HUBXYZ'', ''940GZZLUKWG'', ''HUBNEST'', ''940GZZLUGBY'', ''910GKEWGRDN'']"
    by (simp add: samplePlaces_def)
  have f: "filter (\<lambda>i. HasPrefix i ''940G'')
             [''940GZZLURMD'', ''HUBXYZ'', ''940GZZLUKWG'', ''HUBNEST'', ''940GZZLUGBY'', ''910GKEWGRDN'']
           = [''940GZZLURMD'', ''940GZZLUKWG'', ''940GZZLUGBY'']"
    by (simp add: HasPrefix_def)
  from resolver_platform_identifiers[of ?cl "()" "''Richmond''" "''tube''" samplePlaces] d
  show ?thesis unfolding e f by auto
qed

text \<open>
  Claim C5 as stated keeps every hub identifier out of the pairs. For the station
  \<open>Amersham\<close> the hub \<open>HUBAMR\<close> is let through in the second batch answer and
  appears as a platform.
\<close>

theorem resolver_hub_platform_counterexample:
  "fst (getLinesAndStops (tableClient [''HUBAMR''] (sampleTable [Place ''940GZZLUAMS'' []]))
         () ''Amersham'' ''tube'')
     = Inr [\<lparr>LineID = ''metropolitan'', StopPointID = ''940GZZLUAMS''\<rparr>,
            \<lparr>LineID = ''chiltern-railways'', StopPointID = ''HUBAMR''\<rparr>,
            \<lparr>LineID = ''metropolitan'', StopPointID = ''HUBAMR''\<rparr>]
   \<and> HasPrefix ''HUBAMR'' ''HUB''"
  by (simp add: resolver_defs)

section \<open>Properties of the model builder on a payload with null elements\<close>

lemma findTargetRoute_decoded_None:
  "findTargetRoute_decoded rs = Inr None
     \<longleftrightarrow> (\<forall>r\<in>set rs. \<exists>route. r = Some route \<and> d_Schedules route = [])"
  by (induction rs rule: findTargetRoute_decoded.induct) auto

lemma findTargetRoute_decoded_Some:
  "findTargetRoute_decoded rs = Inr (Some route) \<Longrightarrow>
     \<exists>i<length rs. rs ! i = Some route \<and> d_Schedules route \<noteq> []
        \<and> (\<forall>j<i. \<exists>r. rs ! j = Some r \<and> d_Schedules r = [])"
proof (induction rs rule: findTargetRoute_decoded.induct)
  case 1
  then show ?case by simp
next
  case (2 rs)
  then show ?case by simp
next
  case (3 r rs)
  show ?case
  proof (cases "d_Schedules r = []")
    case True
    with 3 obtain i where i: "i < length rs" "rs ! i = Some route" "d_Schedules route \<noteq> []"
      "\<forall>j<i. \<exists>r. rs ! j = Some r \<and> d_Schedules r = []" by auto
    have "\<forall>j<Suc i. \<exists>r'. (Some r # rs) ! j = Some r' \<and> d_Schedules r' = []"
      using True i(4) by (auto simp: nth_Cons split: nat.splits)
    with i show ?thesis by (intro exI[of _ "Suc i"]) auto
  next
    case False
    with "3.prems" show ?thesis by (intro exI[of _ 0]) auto
  qed
qed

lemma findTargetRoute_decoded_panic:
  "findTargetRoute_decoded rs = Inl p \<Longrightarrow> None \<in> set rs"
  by (induction rs rule: findTargetRoute_decoded.induct) (auto split: if_splits)

lemma addStopNames_decoded_panic:
  "addStopNames_decoded ss names = Inl p \<Longrightarrow> None \<in> set ss"
  by (induction ss names rule: addStopNames_decoded.induct) auto

lemma addStationNames_decoded_panic:
  "addStationNames_decoded ss names = Inl p \<Longrightarrow> None \<in> set ss"
  by (induction ss names rule: addStationNames_decoded.induct) (auto split: if_splits)

lemma scanIntervals_decoded_panic:
  "scanIntervals_decoded names ivs m added st = Inl p \<Longrightarrow> None \<in> set ivs"
  by (induction names ivs m added st rule: scanIntervals_decoded.induct) (auto split: if_splits)

lemma scanStationIntervals_decoded_panic:
  "scanStationIntervals_decoded names dep groups added st idata = Inl p \<Longrightarrow> \<not> nullFreeGroups groups"
proof (induction names dep groups added st idata rule: scanStationIntervals_decoded.induct)
  case (1 names depID addedStops stopSeq idata)
  then show ?case by simp
next
  case (2 names depID rest addedStops stopSeq idata)
  then show ?case by (simp add: nullFreeGroups_def)
next
  case (3 names depID si rest addedStops stopSeq idata)
  show ?case
  proof (cases "scanIntervals_decoded names (d_Intervals si) (Map.empty(depID \<mapsto> 0)) addedStops stopSeq")
    case (Inl q)
    then have "None \<in> set (d_Intervals si)" by (rule scanIntervals_decoded_panic)
    then show ?thesis by (auto simp: nullFreeGroups_def list_all_iff)
  next
    case (Inr res)
    obtain m added' st' where res: "res = (m, added', st')" by (cases res) auto
    from "3.prems" Inr res have
      "scanStationIntervals_decoded names depID rest added' st'
         (idata(intervalKey (d_ID si) \<mapsto> m)) = Inl p" by simp
    from "3.IH"[OF Inr res[symmetric] refl this] show ?thesis
      by (auto simp: nullFreeGroups_def)
  qed
qed

text \<open>
  On a payload without nulls the builder with the explicit dereferences is the builder on
  records.
\<close>

lemma addStopNames_decoded_Some:
  "addStopNames_decoded (map Some ss) names = Inr (addStopNames ss names)"
  by (induction ss arbitrary: names) simp_all

lemma addStationNames_decoded_Some:
  "addStationNames_decoded (map Some ss) names = Inr (addStationNames ss names)"
  by (induction ss arbitrary: names) simp_all

lemma scanIntervals_decoded_Some:
  "scanIntervals_decoded names (map Some ivs) m added st = Inr (scanIntervals names ivs m added st)"
  by (induction ivs arbitrary: m added st) simp_all

lemma scanStationIntervals_decoded_Some:
  "scanStationIntervals_decoded names dep (map (\<lambda>si. Some (decodedGroup si)) groups) added st idata
     = Inr (scanStationIntervals names dep groups added st idata)"
proof (induction groups arbitrary: added st idata)
  case Nil
  then show ?case by simp
next
  case (Cons si rest)
  obtain m added' st' where
    s: "scanIntervals names (Intervals si) (Map.empty(dep \<mapsto> 0)) added st = (m, added', st')"
    by (cases "scanIntervals names (Intervals si) (Map.empty(dep \<mapsto> 0)) added st") auto
  have "scanStationIntervals_decoded names dep
          (map (\<lambda>si. Some (decodedGroup si)) (si # rest)) added st idata
        = scanStationIntervals_decoded names dep (map (\<lambda>si. Some (decodedGroup si)) rest)
            added' st' (idata(intervalKey (si_ID si) \<mapsto> m))"
    using s by (simp add: decodedGroup_def scanIntervals_decoded_Some)
  also have "\<dots> = Inr (scanStationIntervals names dep rest added' st'
            (idata(intervalKey (si_ID si) \<mapsto> m)))"
    by (rule Cons.IH)
  finally show ?case using s by simp
qed

lemma findTargetRoute_decoded_Some_map:
  "findTargetRoute_decoded (map (\<lambda>r. Some (decodedRoute r)) rs)
     = Inr (map_option decodedRoute (findTargetRoute rs))"
  by (induction rs) (simp_all add: decodedRoute_def)

lemma NewTimetableRenderer_decoded_agrees:
  "NewTimetableRenderer_decoded (decodedResponse resp)
     = (case NewTimetableRenderer resp of
          Inl e \<Rightarrow> Failed e
        | Inr tr \<Rightarrow> Returned (decodedRenderer tr))"
proof (cases "Timetable resp")
  case None
  then show ?thesis
    by (simp add: NewTimetableRenderer_decoded_def NewTimetableRenderer_def decodedResponse_def)
next
  case (Some tt)
  show ?thesis
  proof (cases "findTargetRoute (Routes tt)")
    case None
    with Some show ?thesis
      by (simp add: NewTimetableRenderer_decoded_def NewTimetableRenderer_def decodedResponse_def
          decodedTimetable_def findTargetRoute_decoded_Some_map)
  next
    case (Some route)
    then have ne: "Routes tt \<noteq> []" by auto
    from Some have "Schedules route \<noteq> []"
      using findTargetRoute_Some by blast
    then have s0: "map Some (Schedules route) ! 0 = Some (Schedules route ! 0)"
      by (simp add: nth_map)
    have g: "d_StationIntervals (decodedRoute route)
               = map (\<lambda>si. Some (decodedGroup si)) (StationIntervals route)"
      "d_Schedules (decodedRoute route) = map Some (Schedules route)"
      by (simp_all add: decodedRoute_def)
    show ?thesis
      using \<open>Timetable resp = Some tt\<close> Some ne
      by (simp add: NewTimetableRenderer_decoded_def NewTimetableRenderer_def decodedResponse_def
          decodedTimetable_def findTargetRoute_decoded_Some_map addStopNames_decoded_Some
          addStationNames_decoded_Some g scanStationIntervals_decoded_Some s0 Let_def
          decodedRenderer_def)
  qed
qed

lemma hasScheduledRoute_iff:
  "hasScheduledRoute resp
     \<longleftrightarrow> (\<exists>tt route. d_Timetable resp = Some tt \<and> Some route \<in> set (d_Routes tt)
            \<and> d_Schedules route \<noteq> [])"
proof (cases "d_Timetable resp")
  case None
  then show ?thesis by (simp add: hasScheduledRoute_def)
next
  case (Some tt)
  have "(\<exists>r\<in>set (d_Routes tt). case r of None \<Rightarrow> False | Some route \<Rightarrow> d_Schedules route \<noteq> [])
          \<longleftrightarrow> (\<exists>route. Some route \<in> set (d_Routes tt) \<and> d_Schedules route \<noteq> [])"
  proof
    assume "\<exists>r\<in>set (d_Routes tt). case r of None \<Rightarrow> False | Some route \<Rightarrow> d_Schedules route \<noteq> []"
    then obtain r where r: "r \<in> set (d_Routes tt)"
      "case r of None \<Rightarrow> False | Some route \<Rightarrow> d_Schedules route \<noteq> []" by blast
    show "\<exists>route. Some route \<in> set (d_Routes tt) \<and> d_Schedules route \<noteq> []"
    proof (cases r)
      case None
      with r show ?thesis by simp
    next
      case (Some route)
      with r show ?thesis by auto
    qed
  next
    assume "\<exists>route. Some route \<in> set (d_Routes tt) \<and> d_Schedules route \<noteq> []"
    then obtain route where "Some route \<in> set (d_Routes tt)" "d_Schedules route \<noteq> []" by blast
    then show "\<exists>r\<in>set (d_Routes tt). case r of None \<Rightarrow> False | Some route \<Rightarrow> d_Schedules route \<noteq> []"
      by (intro bexI[of _ "Some route"]) simp_all
  qed
  with Some show ?thesis by (simp add: hasScheduledRoute_def list_ex_iff)
qed

lemma NewTimetableRenderer_decoded_Returned:
  assumes "NewTimetableRenderer_decoded resp = Returned tr"
  shows "\<exists>tt. d_Timetable resp = Some tt
           \<and> findTargetRoute_decoded (d_Routes tt) = Inr (Some (d_targetRoute tr))
           \<and> d_schedule tr = d_Schedules (d_targetRoute tr) ! 0"
  using assms
  by (auto simp: NewTimetableRenderer_decoded_def split: option.splits if_splits sum.splits)

lemma NewTimetableRenderer_decoded_Failed:
  "(\<exists>e. NewTimetableRenderer_decoded resp = Failed e)
     \<longleftrightarrow> (\<forall>tt. d_Timetable resp = Some tt \<longrightarrow> findTargetRoute_decoded (d_Routes tt) = Inr None)"
proof (cases "d_Timetable resp")
  case None
  then show ?thesis by (simp add: NewTimetableRenderer_decoded_def)
next
  case (Some tt)
  then show ?thesis
    by (cases "d_Routes tt")
       (auto simp: NewTimetableRenderer_decoded_def split: option.splits sum.splits)
qed

lemma NewTimetableRenderer_decoded_Panicked:
  assumes "NewTimetableRenderer_decoded resp = Panicked p"
  shows "\<not> nullFree resp"
proof -
  from assms obtain tt where tt: "d_Timetable resp = Some tt"
    by (auto simp: NewTimetableRenderer_decoded_def split: option.splits)
  show ?thesis
  proof (cases "findTargetRoute_decoded (d_Routes tt)")
    case (Inl q)
    then have "None \<in> set (d_Routes tt)" by (rule findTargetRoute_decoded_panic)
    then have "\<not> list_all (\<lambda>r. case r of None \<Rightarrow> False
                                   | Some route \<Rightarrow> nullFreeGroups (d_StationIntervals route))
                 (d_Routes tt)"
      unfolding list_all_iff by (intro notI) (drule bspec, assumption, simp)
    with tt show ?thesis by (simp add: nullFree_def)
  next
    case (Inr found)
    with assms tt obtain route where route: "found = Some route"
      by (cases found) (auto simp: NewTimetableRenderer_decoded_def split: if_splits)
    from findTargetRoute_decoded_Some[OF Inr[unfolded route]]
    have mem: "Some route \<in> set (d_Routes tt)" by (metis nth_mem)
    show ?thesis
    proof (cases "addStopNames_decoded (d_Stops resp) Map.empty")
      case (Inl q)
      then have "None \<in> set (d_Stops resp)" by (rule addStopNames_decoded_panic)
      then show ?thesis by (auto simp: nullFree_def list_all_iff)
    next
      case stopNames: (Inr n1)
      show ?thesis
      proof (cases "addStationNames_decoded (d_Stations resp) n1")
        case (Inl q)
        then have "None \<in> set (d_Stations resp)" by (rule addStationNames_decoded_panic)
        then show ?thesis by (auto simp: nullFree_def list_all_iff)
      next
        case names: (Inr n2)
        from assms tt Inr route stopNames names obtain q where
          "scanStationIntervals_decoded n2 (d_DepartureStopID tt) (d_StationIntervals route)
             {d_DepartureStopID tt}
             [\<lparr>stop_id = d_DepartureStopID tt, stop_name = nameOf n2 (d_DepartureStopID tt)\<rparr>]
             Map.empty = Inl q"
          by (auto simp: NewTimetableRenderer_decoded_def split: if_splits sum.splits)
        then have "\<not> nullFreeGroups (d_StationIntervals route)"
          by (rule scanStationIntervals_decoded_panic)
        with mem have "\<not> list_all (\<lambda>r. case r of None \<Rightarrow> False
                                   | Some route \<Rightarrow> nullFreeGroups (d_StationIntervals route))
                 (d_Routes tt)"
          unfolding list_all_iff by (intro notI) (drule bspec, assumption, simp)
        with tt show ?thesis by (simp add: nullFree_def)
      qed
    qed
  qed
qed

lemmas decoded_defs =
  decodedResponse_def decodedTimetable_def decodedRoute_def decodedGroup_def
  responseNullRoute_def responseNullStop_def responseNoSchedule_def
  nullFree_def nullFreeGroups_def hasScheduledRoute_def

text \<open>
  Claim C7, as the code has it. For a response with no null among its routes, stops,
  stations, interval groups and interval entries, the builder fails with an error exactly
  when no route has a schedule (it has two messages for the failure: one when the
  timetable is absent or has no route at all, one when no route has a schedule), and
  returns otherwise. Whenever it returns, the route it selected is the first route of the
  response with a schedule, every route before it being present and without schedules, and
  the schedule is that route's first. It panics only on a response with a null.
\<close>

theorem NewTimetableRenderer_decoded_selection:
  "(nullFree resp \<longrightarrow>
      ((\<exists>e. NewTimetableRenderer_decoded resp = Failed e) \<longleftrightarrow> \<not> hasScheduledRoute resp)
      \<and> (hasScheduledRoute resp \<longrightarrow> (\<exists>tr. NewTimetableRenderer_decoded resp = Returned tr)))
   \<and> (\<forall>tr. NewTimetableRenderer_decoded resp = Returned tr \<longrightarrow>
         (\<exists>tt i. d_Timetable resp = Some tt \<and> i < length (d_Routes tt)
            \<and> d_Routes tt ! i = Some (d_targetRoute tr)
            \<and> d_Schedules (d_targetRoute tr) \<noteq> []
            \<and> (\<forall>j<i. \<exists>r. d_Routes tt ! j = Some r \<and> d_Schedules r = [])
            \<and> d_schedule tr = d_Schedules (d_targetRoute tr) ! 0))
   \<and> ((\<exists>p. NewTimetableRenderer_decoded resp = Panicked p) \<longrightarrow> \<not> nullFree resp)"
proof (intro conjI allI impI)
  assume nf: "nullFree resp"
  show iff: "(\<exists>e. NewTimetableRenderer_decoded resp = Failed e) \<longleftrightarrow> \<not> hasScheduledRoute resp"
  proof
    assume "\<exists>e. NewTimetableRenderer_decoded resp = Failed e"
    then have "\<forall>tt. d_Timetable resp = Some tt \<longrightarrow> findTargetRoute_decoded (d_Routes tt) = Inr None"
      by (simp add: NewTimetableRenderer_decoded_Failed)
    then have "\<forall>tt. d_Timetable resp = Some tt \<longrightarrow>
                 (\<forall>r\<in>set (d_Routes tt). \<exists>route. r = Some route \<and> d_Schedules route = [])"
      by (simp add: findTargetRoute_decoded_None)
    then show "\<not> hasScheduledRoute resp"
      unfolding hasScheduledRoute_iff by fastforce
  next
    assume no: "\<not> hasScheduledRoute resp"
    have "findTargetRoute_decoded (d_Routes tt) = Inr None" if tt: "d_Timetable resp = Some tt" for tt
    proof -
      have "\<exists>route. r = Some route \<and> d_Schedules route = []" if r: "r \<in> set (d_Routes tt)" for r
      proof (cases r)
        case None
        with r tt nf show ?thesis
          by (auto simp: nullFree_def list_all_iff)
      next
        case (Some route)
        with r tt no show ?thesis
          unfolding hasScheduledRoute_iff by auto
      qed
      then show ?thesis by (simp add: findTargetRoute_decoded_None)
    qed
    then show "\<exists>e. NewTimetableRenderer_decoded resp = Failed e"
      by (simp add: NewTimetableRenderer_decoded_Failed)
  qed
  assume has: "hasScheduledRoute resp"
  show "\<exists>tr. NewTimetableRenderer_decoded resp = Returned tr"
  proof (cases "NewTimetableRenderer_decoded resp")
    case (Returned tr)
    then show ?thesis by blast
  next
    case (Failed e)
    with iff has show ?thesis by blast
  next
    case (Panicked p)
    with nf NewTimetableRenderer_decoded_Panicked show ?thesis by blast
  qed
next
  fix tr
  assume "NewTimetableRenderer_decoded resp = Returned tr"
  from NewTimetableRenderer_decoded_Returned[OF this] obtain tt where
    tt: "d_Timetable resp = Some tt"
    "findTargetRoute_decoded (d_Routes tt) = Inr (Some (d_targetRoute tr))"
    "d_schedule tr = d_Schedules (d_targetRoute tr) ! 0" by blast
  from findTargetRoute_decoded_Some[OF tt(2)] obtain i where
    "i < length (d_Routes tt)" "d_Routes tt ! i = Some (d_targetRoute tr)"
    "d_Schedules (d_targetRoute tr) \<noteq> []"
    "\<forall>j<i. \<exists>r. d_Routes tt ! j = Some r \<and> d_Schedules r = []" by blast
  with tt show "\<exists>tt i. d_Timetable resp = Some tt \<and> i < length (d_Routes tt)
            \<and> d_Routes tt ! i = Some (d_targetRoute tr)
            \<and> d_Schedules (d_targetRoute tr) \<noteq> []
            \<and> (\<forall>j<i. \<exists>r. d_Routes tt ! j = Some r \<and> d_Schedules r = [])
            \<and> d_schedule tr = d_Schedules (d_targetRoute tr) ! 0"
    by blast
next
  assume "\<exists>p. NewTimetableRenderer_decoded resp = Panicked p"
  then show "\<not> nullFree resp"
    using NewTimetableRenderer_decoded_Panicked by blast
qed

theorem NewTimetableRenderer_decoded_selection_witness:
  "nullFree (decodedResponse (sampleResponse sampleGroups sampleJourneys))
   \<and> hasScheduledRoute (decodedResponse (sampleResponse sampleGroups sampleJourneys))
   \<and> (\<exists>tr. NewTimetableRenderer_decoded (decodedResponse (sampleResponse sampleGroups sampleJourneys))
             = Returned tr)
   \<and> NewTimetableRenderer_decoded (decodedResponse (sampleResponse sampleGroups sampleJourneys))
       = Returned (decodedRenderer (sampleRenderer sampleGroups))
   \<and> d_targetRoute (decodedRenderer (sampleRenderer sampleGroups))
       = the (d_Routes (the (d_Timetable (decodedResponse (sampleResponse sampleGroups sampleJourneys)))) ! 1)
   \<and> map_option sch_Name (d_schedule (decodedRenderer (sampleRenderer sampleGroups)))
       = Some ''Monday - Friday''
   \<and> nullFree responseNoSchedule \<and> \<not> hasScheduledRoute responseNoSchedule
   \<and> (\<exists>e. NewTimetableRenderer_decoded responseNoSchedule = Failed e)
   \<and> NewTimetableRenderer_decoded responseNoSchedule = Failed NoSchedulesFound"
proof -
  let ?S = "decodedResponse (sampleResponse sampleGroups sampleJourneys)"
  have nf: "nullFree ?S"
    by (simp add: decoded_defs sampleResponse_def sampleGroups_def)
  have has: "hasScheduledRoute ?S"
    by (simp add: decoded_defs sampleResponse_def)
  have r: "\<exists>tr. NewTimetableRenderer_decoded ?S = Returned tr"
    using NewTimetableRenderer_decoded_selection[of ?S] nf has by blast
  have v: "NewTimetableRenderer_decoded ?S = Returned (decodedRenderer (sampleRenderer sampleGroups))"
    by (simp add: NewTimetableRenderer_decoded_agrees sample_built)
  have t: "d_targetRoute (decodedRenderer (sampleRenderer sampleGroups))
       = the (d_Routes (the (d_Timetable ?S)) ! 1)"
    by (simp add: decodedRenderer_def decoded_defs NewTimetableRenderer_def sampleRenderer_def
        sampleResponse_def Let_def)
  have s: "map_option sch_Name (d_schedule (decodedRenderer (sampleRenderer sampleGroups)))
       = Some ''Monday - Friday''"
    by (simp add: decodedRenderer_def NewTimetableRenderer_def sampleRenderer_def
        sampleResponse_def Let_def)
  have nf2: "nullFree responseNoSchedule"
    by (simp add: decoded_defs)
  have no2: "\<not> hasScheduledRoute responseNoSchedule"
    by (simp add: decoded_defs)
  have f: "\<exists>e. NewTimetableRenderer_decoded responseNoSchedule = Failed e"
    using NewTimetableRenderer_decoded_selection[of responseNoSchedule] nf2 no2 by blast
  have fv: "NewTimetableRenderer_decoded responseNoSchedule = Failed NoSchedulesFound"
    by (simp add: NewTimetableRenderer_decoded_def responseNoSchedule_def)
  from nf has r v t s nf2 no2 f fv show ?thesis by blast
qed

text \<open>
  Claim C7 as stated covers every response. A response whose only route is null has no
  route with a schedule, and the builder panics on it instead of failing with an error; a
  response with a null stop beside a route with schedules makes it panic instead of
  returning.
\<close>

theorem NewTimetableRenderer_null_element_counterexample:
  "NewTimetableRenderer_decoded responseNullRoute = Panicked NilPointerDereference
   \<and> \<not> hasScheduledRoute responseNullRoute
   \<and> NewTimetableRenderer_decoded responseNullStop = Panicked NilPointerDereference
   \<and> hasScheduledRoute responseNullStop"
proof -
  have "NewTimetableRenderer_decoded responseNullRoute = Panicked NilPointerDereference"
    by (simp add: NewTimetableRenderer_decoded_def responseNullRoute_def)
  moreover have "\<not> hasScheduledRoute responseNullRoute"
    by (simp add: decoded_defs)
  moreover have "NewTimetableRenderer_decoded responseNullStop = Panicked NilPointerDereference"
    by (simp add: NewTimetableRenderer_decoded_def decoded_defs sampleResponse_def)
  moreover have "hasScheduledRoute responseNullStop"
    by (simp add: decoded_defs sampleResponse_def)
  ultimately show ?thesis by blast
qed

end
